theory Spec2Isabelle
  imports Main "HOL-Library.Word"
begin

section \<open>The alternative-itinerary workflow of the travel agent (src/src/server.ts)\<close>

text \<open>
  The agent class \<^verbatim>\<open>Chat\<close> keeps a state object in its durable store, a list of
  chat messages and a queue of scheduled callbacks. After a primary answer has been streamed,
  \<^verbatim>\<open>wrappedOnFinish\<close> decides from the last user text whether to schedule a one-time
  alternative itinerary; the scheduled callback \<^verbatim>\<open>executeTask\<close> later generates
  and posts it, retrying once on failure.

  A JavaScript string is the sequence of its UTF-16 code units. The development uses
  \<^typ>\<open>string\<close>, one \<^typ>\<open>char\<close> per code unit, so it covers the texts whose
  code units are below 256 (ASCII and Latin-1); \<^verbatim>\<open>charCodeAt(i)\<close> is
  \<^term>\<open>of_char\<close> of the \<open>i\<close>-th character.
\<close>

subsection \<open>Characters: white space, word characters, lower case\<close>

definition code :: "char \<Rightarrow> nat" where
  "code c = of_char c"

text \<open>
  White space and line terminators of ECMAScript, as matched by \<^verbatim>\<open>\s\<close> and removed by
  \<^verbatim>\<open>trim()\<close>: TAB, LF, VT, FF, CR, SP and NBSP are the ones below 256.
\<close>

definition isSpace :: "char \<Rightarrow> bool" where
  "isSpace c = (code c \<in> {9, 10, 11, 12, 13, 32, 160})"

definition isDigit :: "char \<Rightarrow> bool" where
  "isDigit c = (48 \<le> code c \<and> code c \<le> 57)"

text \<open>\<^verbatim>\<open>\w\<close> without the \<^verbatim>\<open>u\<close> and \<^verbatim>\<open>i\<close> flags: \<^verbatim>\<open>[A-Za-z0-9_]\<close>.\<close>

definition isWordChar :: "char \<Rightarrow> bool" where
  "isWordChar c =
     ((65 \<le> code c \<and> code c \<le> 90) \<or> (97 \<le> code c \<and> code c \<le> 122) \<or> isDigit c \<or> code c = 95)"

text \<open>
  \<^verbatim>\<open>String.prototype.toLowerCase\<close> on code units below 256: A to Z, and the
  upper-case letters U+00C0 to U+00DE except the multiplication sign U+00D7, move up by 32.
\<close>

definition lowerChar :: "char \<Rightarrow> char" where
  "lowerChar c =
     (if (65 \<le> code c \<and> code c \<le> 90) \<or> (192 \<le> code c \<and> code c \<le> 222 \<and> code c \<noteq> 215)
      then char_of (code c + 32) else c)"

definition toLowerCase :: "string \<Rightarrow> string" where
  "toLowerCase t = map lowerChar t"

definition trim :: "string \<Rightarrow> string" where
  "trim t = rev (dropWhile isSpace (rev (dropWhile isSpace t)))"

subsection \<open>The four regular expressions of the classifier\<close>

text \<open>
  The patterns of \<^verbatim>\<open>looksLikeItineraryRequest\<close> are flat sequences of atoms.
  \<^verbatim>\<open>RegExp.prototype.test\<close> answers whether some start position admits a match, and
  backtracking tries every split, so a pattern matches from \<open>i\<close> iff some choice of
  repetition counts does.
\<close>

datatype cls = Digit | Space

fun inCls :: "cls \<Rightarrow> char \<Rightarrow> bool" where
  "inCls Digit c = isDigit c"
| "inCls Space c = isSpace c"

datatype atom =
    Boundary                \<comment> \<open>\<^verbatim>\<open>\b\<close>\<close>
  | Lit string              \<comment> \<open>literal characters\<close>
  | OptLit string           \<comment> \<open>\<^verbatim>\<open>(...)?\<close> around literal characters\<close>
  | Many cls nat            \<comment> \<open>\<^verbatim>\<open>\d+\<close> is \<open>Many Digit 1\<close>, \<^verbatim>\<open>\s*\<close> is \<open>Many Space 0\<close>\<close>

definition wordAt :: "string \<Rightarrow> nat \<Rightarrow> bool" where
  "wordAt s i = (i < length s \<and> isWordChar (s ! i))"

text \<open>\<^verbatim>\<open>\b\<close> holds at \<open>i\<close> when exactly one of the characters before and at \<open>i\<close> is a word character.\<close>

definition boundaryAt :: "string \<Rightarrow> nat \<Rightarrow> bool" where
  "boundaryAt s i = ((0 < i \<and> wordAt s (i - 1)) \<noteq> wordAt s i)"

definition litAt :: "string \<Rightarrow> string \<Rightarrow> nat \<Rightarrow> bool" where
  "litAt w s i = (take (length w) (drop i s) = w)"

definition run :: "cls \<Rightarrow> string \<Rightarrow> nat \<Rightarrow> nat" where
  "run k s i = length (takeWhile (inCls k) (drop i s))"

fun matchFrom :: "atom list \<Rightarrow> string \<Rightarrow> nat \<Rightarrow> bool" where
  "matchFrom [] s i = True"
| "matchFrom (Boundary # as) s i = (boundaryAt s i \<and> matchFrom as s i)"
| "matchFrom (Lit w # as) s i = (litAt w s i \<and> matchFrom as s (i + length w))"
| "matchFrom (OptLit w # as) s i =
     ((litAt w s i \<and> matchFrom as s (i + length w)) \<or> matchFrom as s i)"
| "matchFrom (Many k lo # as) s i =
     list_ex (\<lambda>n. matchFrom as s (i + n)) [lo ..< Suc (run k s i)]"

definition test :: "atom list \<Rightarrow> string \<Rightarrow> bool" where
  "test r s = list_ex (matchFrom r s) [0 ..< Suc (length s)]"

definition rxDays :: "atom list" where
  "rxDays = [Boundary, Many Digit 1, Many Space 0, Lit ''day'', OptLit ''s'', Boundary]"

definition rxWeek :: "atom list" where
  "rxWeek = [Boundary, Lit ''week'', OptLit ''end'', Boundary]"

definition rxItinerary :: "atom list" where
  "rxItinerary = [Boundary, Lit ''itinerary'', Boundary]"

definition rxTrip :: "atom list" where
  "rxTrip = [Boundary, Lit ''trip'', Boundary]"

definition looksLikeItineraryRequest :: "string \<Rightarrow> bool" where
  "looksLikeItineraryRequest t =
     (let lower = toLowerCase t
      in test rxDays lower \<or> test rxWeek lower \<or> test rxItinerary lower \<or> test rxTrip lower)"

subsection \<open>The fingerprint\<close>

text \<open>
  \<^verbatim>\<open>h = (h * 31 + t.charCodeAt(i)) >>> 0\<close>: with \<open>h < 2^32\<close> the product and sum stay
  below \<open>2^53\<close> and are exact, and \<^verbatim>\<open>>>> 0\<close> reduces modulo \<open>2^32\<close>; this is
  arithmetic on 32-bit words. \<^verbatim>\<open>h.toString(16)\<close> prints lower-case hexadecimal digits
  without leading zeros.
\<close>

definition hexDigit :: "nat \<Rightarrow> char" where
  "hexDigit d = ''0123456789abcdef'' ! d"

fun hexDigits :: "nat \<Rightarrow> string" where
  "hexDigits n = (if n = 0 then [] else hexDigits (n div 16) @ [hexDigit (n mod 16)])"

declare hexDigits.simps [simp del]

definition toString16 :: "nat \<Rightarrow> string" where
  "toString16 n = (if n = 0 then ''0'' else hexDigits n)"

definition hashStep :: "32 word \<Rightarrow> char \<Rightarrow> 32 word" where
  "hashStep h c = h * 31 + of_nat (code c)"

definition itineraryIdFrom :: "string \<Rightarrow> string" where
  "itineraryIdFrom t = ''itn-'' @ toString16 (unat (foldl hashStep 0 t))"

subsection \<open>JSON values and the agent's persisted state\<close>

text \<open>
  Values produced by \<^verbatim>\<open>JSON.parse\<close>. Numbers are integers: the code only adds one to a
  retry count and compares it with one, which is exact on the integers a double represents
  exactly; fractions and larger numbers are outside the model. An object is the list of its
  own properties in insertion order, with distinct keys.
\<close>

datatype json =
    JNull
  | JBool bool
  | JNum int
  | JStr string
  | JArr "json list"
  | JObj "(string \<times> json) list"

text \<open>JavaScript truthiness of a property read: \<open>None\<close> is \<^verbatim>\<open>undefined\<close>.\<close>

fun truthy :: "json option \<Rightarrow> bool" where
  "truthy None = False"
| "truthy (Some JNull) = False"
| "truthy (Some (JBool b)) = b"
| "truthy (Some (JNum n)) = (n \<noteq> 0)"
| "truthy (Some (JStr s)) = (s \<noteq> [])"
| "truthy (Some (JArr xs)) = True"
| "truthy (Some (JObj kvs)) = True"

text \<open>
  Reading one of the properties \<^verbatim>\<open>kind\<close>, \<^verbatim>\<open>itineraryId\<close>, \<^verbatim>\<open>retry\<close> of a parsed,
  non-null value: only an object can own them, and no prototype defines them.
\<close>

fun getProp :: "json \<Rightarrow> string \<Rightarrow> json option" where
  "getProp (JObj kvs) k = map_of kvs k"
| "getProp v k = None"

text \<open>The type \<^verbatim>\<open>AgentState\<close> and its parts; every field is optional in the source.\<close>

record Profile =
  preferences :: "(string \<times> json) list option"
  profile_notes :: "string option"    \<comment> \<open>the field \<^verbatim>\<open>notes\<close>\<close>

record Itinerary =
  itin_id :: string
  itin_text :: string
  itin_createdAt :: string

record AgentState =
  profile :: "Profile option"
  itineraryCounter :: "int option"
  altOfferedFor :: "(string \<rightharpoonup> bool) option"
  lastItinerary :: "Itinerary option"

definition emptyState :: AgentState where
  "emptyState = \<lparr>profile = None, itineraryCounter = None, altOfferedFor = None, lastItinerary = None\<rparr>"

text \<open>
  The names every plain object inherits from \<^verbatim>\<open>Object.prototype\<close>; reading one of them
  from an object that does not own it yields a function or an object, which is truthy.
\<close>

definition objectPrototypeKeys :: "string list" where
  "objectPrototypeKeys =
     [''constructor'', ''__defineGetter__'', ''__defineSetter__'', ''hasOwnProperty'',
      ''__lookupGetter__'', ''__lookupSetter__'', ''isPrototypeOf'', ''propertyIsEnumerable'',
      ''toString'', ''valueOf'', ''__proto__'', ''toLocaleString'']"

text \<open>Truthiness of \<^verbatim>\<open>m[k]\<close> for a \<^verbatim>\<open>Record<string, boolean>\<close>.\<close>

definition truthyAt :: "(string \<rightharpoonup> bool) \<Rightarrow> string \<Rightarrow> bool" where
  "truthyAt m k = (case m k of Some b \<Rightarrow> b | None \<Rightarrow> k \<in> set objectPrototypeKeys)"

subsection \<open>Messages, scheduled callbacks and the agent as a whole\<close>

datatype role = User | Assistant | System

datatype part = TextPart string | OtherPart

record Message =
  msg_id :: string
  msg_role :: role
  msg_parts :: "part list"
  msg_createdAt :: "string option"

text \<open>
  The calls the agent makes to its collaborators, in program order. The \<open>trace\<close> field of
  the world records them, so that orderings and call counts can be stated.
\<close>

datatype effect =
    SetState AgentState
  | SaveMessages "Message list"
  | Schedule nat string string
  | GenerateText string string

record World =
  state :: "AgentState option"                     \<comment> \<open>\<^verbatim>\<open>this.state\<close>\<close>
  messages :: "Message list"                       \<comment> \<open>\<^verbatim>\<open>this.messages\<close>\<close>
  schedules :: "(nat \<times> string \<times> string) list"      \<comment> \<open>pending \<^verbatim>\<open>this.schedule(delay, callback, payload)\<close>\<close>
  trace :: "effect list"

text \<open>
  The store, the message log and the scheduler are taken to accept every call, as their
  contracts say, and \<^verbatim>\<open>saveMessages\<close> is the write to the message log; what the framework
  does beyond that (logging, replying to a saved message) is outside the model.
\<close>

definition setState :: "AgentState \<Rightarrow> World \<Rightarrow> World" where
  "setState s w = w\<lparr>state := Some s, trace := trace w @ [SetState s]\<rparr>"

definition saveMessages :: "Message list \<Rightarrow> World \<Rightarrow> World" where
  "saveMessages ms w = w\<lparr>messages := ms, trace := trace w @ [SaveMessages ms]\<rparr>"

definition schedule :: "nat \<Rightarrow> string \<Rightarrow> string \<Rightarrow> World \<Rightarrow> World" where
  "schedule delay callback payload w =
     w\<lparr>schedules := schedules w @ [(delay, callback, payload)],
       trace := trace w @ [Schedule delay callback payload]\<rparr>"

text \<open>\<^verbatim>\<open>(this.state as AgentState) || {}\<close>\<close>

definition stateOrEmpty :: "World \<Rightarrow> AgentState" where
  "stateOrEmpty w = (case state w of None \<Rightarrow> emptyState | Some s \<Rightarrow> s)"

subsection \<open>What the JavaScript runtime and the environment provide\<close>

text \<open>
  Built-in functions of the language that the code calls: \<^verbatim>\<open>JSON.parse\<close> (\<open>None\<close> when it
  throws a SyntaxError), \<^verbatim>\<open>JSON.stringify\<close>, and the coercions that \<^verbatim>\<open>+\<close> and \<^verbatim>\<open><=\<close>
  apply to a \<^verbatim>\<open>retry\<close> field that is not a number: \<open>toStringOf\<close> is the string
  conversion of an array or object, \<open>stringLeOne s\<close> says whether the number that the string
  \<open>s\<close> converts to is at most one (false when it converts to NaN).
\<close>

record runtime =
  parse :: "string \<Rightarrow> json option"
  stringify :: "json \<Rightarrow> string"
  toStringOf :: "json \<Rightarrow> string"
  stringLeOne :: "string \<Rightarrow> bool"

text \<open>The clock and the id generator: \<^verbatim>\<open>new Date()\<close> as an ISO string, \<^verbatim>\<open>generateId()\<close>.\<close>

record env =
  isoNow :: string
  freshId :: string

text \<open>
  The text generator \<^verbatim>\<open>generateText\<close>, called with the system text and the prompt: it
  throws, or returns an object whose \<^verbatim>\<open>text\<close> may be missing.
\<close>

datatype genResult = GenThrows | GenText "string option"

type_synonym generator = "string \<Rightarrow> string \<Rightarrow> genResult"

definition generateText :: "generator \<Rightarrow> string \<Rightarrow> string \<Rightarrow> World \<Rightarrow> genResult \<times> World" where
  "generateText gen sys prompt w = (gen sys prompt, w\<lparr>trace := trace w @ [GenerateText sys prompt]\<rparr>)"

subsection \<open>Scheduling the alternative: \<^verbatim>\<open>wrappedOnFinish\<close>\<close>

text \<open>
  \<^verbatim>\<open>lastUserText\<close>: the first text part of the last user message, trimmed; the empty string
  when there is none.
\<close>

fun firstText :: "part list \<Rightarrow> string option" where
  "firstText [] = None"
| "firstText (TextPart t # ps) = Some t"
| "firstText (OtherPart # ps) = firstText ps"

definition lastUserText :: "Message list \<Rightarrow> string" where
  "lastUserText ms =
     (case find (\<lambda>m. msg_role m = User) (rev ms) of
        None \<Rightarrow> []
      | Some m \<Rightarrow> (case firstText (msg_parts m) of None \<Rightarrow> [] | Some t \<Rightarrow> trim t))"

definition altPayload :: "string \<Rightarrow> json" where
  "altPayload itineraryId = JObj [(''kind'', JStr ''altItinerary''), (''itineraryId'', JStr itineraryId)]"

text \<open>
  The body of \<^verbatim>\<open>wrappedOnFinish\<close> after the framework's own \<^verbatim>\<open>onFinish\<close> has returned.
  \<open>userText\<close> is the captured \<^verbatim>\<open>lastUserText\<close> and \<open>finalText\<close> is \<^verbatim>\<open>final?.text\<close>.
\<close>

definition wrappedOnFinish :: "runtime \<Rightarrow> env \<Rightarrow> string \<Rightarrow> string option \<Rightarrow> World \<Rightarrow> World" where
  "wrappedOnFinish rt e userText finalText w =
     (if userText = [] \<or> \<not> looksLikeItineraryRequest userText then w
      else
        let s = stateOrEmpty w;
            itineraryId = itineraryIdFrom userText;
            already = (case altOfferedFor s of None \<Rightarrow> False | Some m \<Rightarrow> truthyAt m itineraryId)
        in if already then w
           else
             let updated = s\<lparr>
                   lastItinerary := Some \<lparr>itin_id = itineraryId,
                                           itin_text = (case finalText of None \<Rightarrow> [] | Some t \<Rightarrow> t),
                                           itin_createdAt = isoNow e\<rparr>,
                   altOfferedFor := Some ((case altOfferedFor s of None \<Rightarrow> Map.empty | Some m \<Rightarrow> m)
                                           (itineraryId \<mapsto> False))\<rparr>
             in schedule 15 ''executeTask'' (stringify rt (altPayload itineraryId)) (setState updated w))"

subsection \<open>Running the scheduled callback: \<^verbatim>\<open>executeTask\<close>\<close>

datatype error = TypeError

definition newline :: char where
  "newline = CHR 0x0A"

text \<open>\<^verbatim>\<open>Array.prototype.join("\n")\<close>\<close>

fun joinLines :: "string list \<Rightarrow> string" where
  "joinLines [] = []"
| "joinLines [l] = l"
| "joinLines (l # l' # ls) = l @ newline # joinLines (l' # ls)"

definition altSystem :: string where
  "altSystem = ''You are an efficient travel-planning writer. Output only the alternative itinerary in a clean Day 1..N format; no preamble.''"

text \<open>
  The prompt, built from the stored preferences and notes and the base itinerary: the lines
  that are not empty (\<^verbatim>\<open>.filter(Boolean)\<close>), joined by newlines.
\<close>

definition altPrompt :: "runtime \<Rightarrow> AgentState \<Rightarrow> Itinerary \<Rightarrow> string" where
  "altPrompt rt s base =
     (let prefs = (case profile s of None \<Rightarrow> []
                   | Some p \<Rightarrow> (case preferences p of None \<Rightarrow> [] | Some ps \<Rightarrow> ps));
          notes = (case profile s of None \<Rightarrow> None | Some p \<Rightarrow> profile_notes p)
      in joinLines (filter (\<lambda>l. l \<noteq> [])
       [''You are TravelPlanner. Generate a MATERIAL alternative itinerary for the same city and duration as the base plan below.'',
        ''Constraints:'',
        ''- Keep the same overall budget band and user preferences.'',
        ''- Change at least half of the neighborhood clustering or daily sequence.'',
        ''- Introduce a different organizing principle (e.g., transit-first vs walk-first, sunset-viewpoints focus, or different neighborhoods).'',
        ''- Keep it concise but complete (Day 1..N).'',
        [],
        (if prefs \<noteq> []
         then ''User Preferences (apply consistently): '' @ stringify rt (JObj prefs)
         else ''User Preferences: none provided''),
        (case notes of None \<Rightarrow> [] | Some n \<Rightarrow> if n = [] then [] else ''Notes: '' @ n),
        [],
        ''BASE ITINERARY:'',
        itin_text base]))"

text \<open>
  \<^verbatim>\<open>altText?.trim()\<close> and the test \<^verbatim>\<open>if (!finalAlt) throw\<close>: \<open>None\<close> stands for every way
  into the \<^verbatim>\<open>catch\<close> block (the generator threw, no text, or only white space).
\<close>

fun finalAltOf :: "genResult \<Rightarrow> string option" where
  "finalAltOf GenThrows = None"
| "finalAltOf (GenText None) = None"
| "finalAltOf (GenText (Some altText)) = (if trim altText = [] then None else Some (trim altText))"

text \<open>\<^verbatim>\<open>(payload.retry ?? 0) + 1\<close>\<close>

fun nextRetry :: "runtime \<Rightarrow> json option \<Rightarrow> json" where
  "nextRetry rt None = JNum 1"
| "nextRetry rt (Some JNull) = JNum 1"
| "nextRetry rt (Some (JNum n)) = JNum (n + 1)"
| "nextRetry rt (Some (JBool b)) = JNum (if b then 2 else 1)"
| "nextRetry rt (Some (JStr s)) = JStr (s @ ''1'')"
| "nextRetry rt (Some (JArr xs)) = JStr (toStringOf rt (JArr xs) @ ''1'')"
| "nextRetry rt (Some (JObj kvs)) = JStr (toStringOf rt (JObj kvs) @ ''1'')"

text \<open>\<^verbatim>\<open>retry <= 1\<close>\<close>

fun atMostOne :: "runtime \<Rightarrow> json \<Rightarrow> bool" where
  "atMostOne rt (JNum n) = (n \<le> 1)"
| "atMostOne rt (JStr s) = stringLeOne rt s"
| "atMostOne rt JNull = True"
| "atMostOne rt (JBool b) = True"
| "atMostOne rt (JArr xs) = stringLeOne rt (toStringOf rt (JArr xs))"
| "atMostOne rt (JObj kvs) = stringLeOne rt (toStringOf rt (JObj kvs))"

definition retryPayload :: "string \<Rightarrow> json \<Rightarrow> json" where
  "retryPayload itineraryId retry =
     JObj [(''kind'', JStr ''altItinerary''), (''itineraryId'', JStr itineraryId), (''retry'', retry)]"

definition altMessage :: "env \<Rightarrow> string \<Rightarrow> string \<Rightarrow> Message" where
  "altMessage e itineraryId finalAlt =
     \<lparr>msg_id = freshId e, msg_role = Assistant,
      msg_parts = [TextPart (''**Alternative itinerary ('' @ itineraryId @ '')**'' @ [newline, newline] @ finalAlt)],
      msg_createdAt = Some (isoNow e)\<rparr>"

definition defaultMessage :: "env \<Rightarrow> string \<Rightarrow> Message" where
  "defaultMessage e description =
     \<lparr>msg_id = freshId e, msg_role = User,
      msg_parts = [TextPart (''Running scheduled task: '' @ description)],
      msg_createdAt = Some (isoNow e)\<rparr>"

text \<open>
  The branch \<^verbatim>\<open>payload.kind === "altItinerary" && payload.itineraryId\<close> for an
  \<^verbatim>\<open>itineraryId\<close> that is a string; \<open>retryField\<close> is \<^verbatim>\<open>payload.retry\<close>.
\<close>

definition altItinerary ::
  "runtime \<Rightarrow> generator \<Rightarrow> env \<Rightarrow> string \<Rightarrow> json option \<Rightarrow> World \<Rightarrow> World" where
  "altItinerary rt gen e itineraryId retryField w =
     (let s = stateOrEmpty w;
          offeredMap = (case altOfferedFor s of None \<Rightarrow> Map.empty | Some m \<Rightarrow> m)
      in if truthyAt offeredMap itineraryId then w
         else case lastItinerary s of
           None \<Rightarrow> w
         | Some base \<Rightarrow>
             if itin_id base \<noteq> itineraryId then w
             else
               let (result, w1) = generateText gen altSystem (altPrompt rt s base) w
               in (case finalAltOf result of
                     Some finalAlt \<Rightarrow>
                       let w2 = setState (s\<lparr>altOfferedFor := Some (offeredMap(itineraryId \<mapsto> True))\<rparr>) w1
                       in saveMessages (messages w2 @ [altMessage e itineraryId finalAlt]) w2
                   | None \<Rightarrow>
                       let retry = nextRetry rt retryField
                       in if atMostOne rt retry
                          then schedule 10 ''executeTask'' (stringify rt (retryPayload itineraryId retry)) w1
                          else w1))"

text \<open>
  \<^verbatim>\<open>executeTask(description)\<close>. The payload stays \<^verbatim>\<open>{}\<close> when \<^verbatim>\<open>JSON.parse\<close> throws.
  When it returns \<^verbatim>\<open>null\<close>, reading \<^verbatim>\<open>payload.kind\<close> throws a TypeError outside every
  \<^verbatim>\<open>try\<close>. A truthy \<^verbatim>\<open>itineraryId\<close> that is not a string never equals the string
  \<^verbatim>\<open>base.id\<close> under \<^verbatim>\<open>!==\<close>, so the call returns at one of the two guards without any effect.
\<close>

definition executeTask :: "runtime \<Rightarrow> generator \<Rightarrow> env \<Rightarrow> string \<Rightarrow> World \<Rightarrow> error + World" where
  "executeTask rt gen e description w =
     (let payload = (case parse rt description of None \<Rightarrow> JObj [] | Some v \<Rightarrow> v)
      in if payload = JNull then Inl TypeError
         else if getProp payload ''kind'' = Some (JStr ''altItinerary'') \<and> truthy (getProp payload ''itineraryId'')
         then (case getProp payload ''itineraryId'' of
                 Some (JStr itineraryId) \<Rightarrow> Inr (altItinerary rt gen e itineraryId (getProp payload ''retry'') w)
               | _ \<Rightarrow> Inr w)
         else Inr (saveMessages (messages w @ [defaultMessage e description]) w))"

subsection \<open>Sequences of events, and the scheduler\<close>

text \<open>
  The two entry points as events: a primary answer finishes, or the scheduler delivers a
  payload to \<^verbatim>\<open>executeTask\<close> (with the generator's behaviour during that call).
\<close>

datatype event =
    Finish env string "string option"
  | Deliver generator env string

fun step :: "runtime \<Rightarrow> event \<Rightarrow> World \<Rightarrow> error + World" where
  "step rt (Finish e userText finalText) w = Inr (wrappedOnFinish rt e userText finalText w)"
| "step rt (Deliver gen e description) w = executeTask rt gen e description w"

fun runEvents :: "runtime \<Rightarrow> event list \<Rightarrow> World \<Rightarrow> error + World" where
  "runEvents rt [] w = Inr w"
| "runEvents rt (ev # evs) w =
     (case step rt ev w of Inl err \<Rightarrow> Inl err | Inr w' \<Rightarrow> runEvents rt evs w')"

text \<open>
  The external scheduler, delivering what is pending, oldest first, for at most \<open>fuel\<close>
  deliveries; \<open>gens i\<close> is the generator's behaviour during the \<open>i\<close>-th delivery. Every
  entry the code enqueues names the callback \<^verbatim>\<open>executeTask\<close>.
\<close>

fun runScheduler ::
  "runtime \<Rightarrow> (nat \<Rightarrow> generator) \<Rightarrow> env \<Rightarrow> nat \<Rightarrow> nat \<Rightarrow> World \<Rightarrow> error + World" where
  "runScheduler rt gens e i 0 w = Inr w"
| "runScheduler rt gens e i (Suc fuel) w =
     (case schedules w of
        [] \<Rightarrow> Inr w
      | (delay, callback, payload) # pending \<Rightarrow>
          (case executeTask rt (gens i) e payload (w\<lparr>schedules := pending\<rparr>) of
             Inl err \<Rightarrow> Inl err
           | Inr w' \<Rightarrow> runScheduler rt gens e (Suc i) fuel w'))"

subsection \<open>Reading the workflow markers\<close>

text \<open>
  The marker of a fingerprint in \<^verbatim>\<open>altOfferedFor\<close>: absent, \<open>False\<close> once the
  alternative is scheduled, \<open>True\<close> once it is offered. These are the only values the
  code stores.
\<close>

definition marker :: "World \<Rightarrow> string \<Rightarrow> bool option" where
  "marker w F = (case altOfferedFor (stateOrEmpty w) of None \<Rightarrow> None | Some m \<Rightarrow> m F)"

fun rank :: "bool option \<Rightarrow> nat" where
  "rank None = 0"
| "rank (Some False) = 1"
| "rank (Some True) = 2"

text \<open>The guard of \<^verbatim>\<open>executeTask\<close>: \<^verbatim>\<open>offeredMap[itineraryId]\<close> is truthy.\<close>

definition offeredGuard :: "World \<Rightarrow> string \<Rightarrow> bool" where
  "offeredGuard w F =
     truthyAt (case altOfferedFor (stateOrEmpty w) of None \<Rightarrow> Map.empty | Some m \<Rightarrow> m) F"

definition baseId :: "World \<Rightarrow> string option" where
  "baseId w = map_option itin_id (lastItinerary (stateOrEmpty w))"

text \<open>The payload \<open>description\<close> parses to an alternative-itinerary payload for \<open>F\<close>.\<close>

definition invokes :: "runtime \<Rightarrow> string \<Rightarrow> string \<Rightarrow> bool" where
  "invokes rt description F =
     (case parse rt description of
        Some (JObj kvs) \<Rightarrow>
          map_of kvs ''kind'' = Some (JStr ''altItinerary'') \<and> map_of kvs ''itineraryId'' = Some (JStr F)
          \<and> F \<noteq> []
      | _ \<Rightarrow> False)"

definition retryField :: "runtime \<Rightarrow> string \<Rightarrow> json option" where
  "retryField rt description =
     (case parse rt description of Some v \<Rightarrow> getProp v ''retry'' | None \<Rightarrow> None)"

text \<open>The test that selects the alternative-itinerary branch of \<^verbatim>\<open>executeTask\<close>.\<close>

definition wellFormedAlt :: "json \<Rightarrow> bool" where
  "wellFormedAlt p =
     (getProp p ''kind'' = Some (JStr ''altItinerary'') \<and> truthy (getProp p ''itineraryId''))"

fun deliveryFor :: "runtime \<Rightarrow> string \<Rightarrow> event \<Rightarrow> bool" where
  "deliveryFor rt F (Deliver gen e description) = invokes rt description F"
| "deliveryFor rt F (Finish e userText finalText) = False"

text \<open>
  \<^verbatim>\<open>wrappedOnFinish\<close> writes \<^verbatim>\<open>lastItinerary\<close> together with the marker of its id, and
  nothing else writes \<^verbatim>\<open>lastItinerary\<close>: a stored base always has a marker.
\<close>

definition consistent :: "World \<Rightarrow> bool" where
  "consistent w = (case baseId w of None \<Rightarrow> True | Some F \<Rightarrow> marker w F \<noteq> None)"

subsection \<open>The preference store\<close>

text \<open>
  The tool \<^verbatim>\<open>upsertPreferences\<close> lives in \<^verbatim>\<open>tools.ts\<close>, which is not among the sources;
  the three definitions below follow section 4.3 of the spec.
\<close>

text \<open>
  Modelled from the spec: writing one key of a preferences mapping, as the merge of
  \<^verbatim>\<open>tools.ts\<close> (absent) does for each key of the delta. Keys are unique: an existing key
  gets the new value in place, a new key is added.
\<close>

fun setProp :: "string \<Rightarrow> json \<Rightarrow> (string \<times> json) list \<Rightarrow> (string \<times> json) list" where
  "setProp k v [] = [(k, v)]"
| "setProp k v ((k', v') # kvs) = (if k' = k then (k, v) # kvs else (k', v') # setProp k v kvs)"

text \<open>
  Modelled from the spec: the deep merge of \<^verbatim>\<open>tools.ts\<close> (absent). ``For each key, if both
  existing and incoming values are mapping-typed, merge recursively; otherwise incoming value
  replaces existing''; arrays are replaced wholesale, so only objects count as mappings.
\<close>

function deepMerge :: "(string \<times> json) list \<Rightarrow> (string \<times> json) list \<Rightarrow> (string \<times> json) list" where
  "deepMerge existing [] = existing"
| "deepMerge existing ((k, incoming) # delta) =
     deepMerge
       (setProp k
          (case (map_of existing k, incoming) of
             (Some (JObj a), JObj b) \<Rightarrow> JObj (deepMerge a b)
           | _ \<Rightarrow> incoming)
          existing)
       delta"
  by pat_completeness auto
termination
  by (relation "measure (\<lambda>(existing, delta). size (JObj delta))") auto

text \<open>
  Modelled from the spec: the operation \<^verbatim>\<open>upsert(delta, notes?)\<close> of \<^verbatim>\<open>tools.ts\<close> (absent).
  It merges the delta into \<^verbatim>\<open>profile.preferences\<close>, replaces \<^verbatim>\<open>profile.notes\<close> when notes
  are given, and writes the state back in one read-modify-write. The wording of the
  acknowledgment it returns is not specified and is left out.
\<close>

definition upsert :: "(string \<times> json) list \<Rightarrow> string option \<Rightarrow> World \<Rightarrow> World" where
  "upsert delta notes w =
     (let s = stateOrEmpty w;
          p = (case profile s of None \<Rightarrow> \<lparr>preferences = None, profile_notes = None\<rparr> | Some p \<Rightarrow> p);
          merged = deepMerge (case preferences p of None \<Rightarrow> [] | Some ps \<Rightarrow> ps) delta
      in setState (s\<lparr>profile := Some \<lparr>preferences = Some merged,
                                       profile_notes = (case notes of None \<Rightarrow> profile_notes p
                                                        | Some n \<Rightarrow> Some n)\<rparr>\<rparr>) w)"

text \<open>\<^verbatim>\<open>profile.preferences\<close> as the prompt builders read it: \<^verbatim>\<open>{}\<close> when absent.\<close>

definition storedPreferences :: "World \<Rightarrow> (string \<times> json) list" where
  "storedPreferences w =
     (case profile (stateOrEmpty w) of None \<Rightarrow> []
      | Some p \<Rightarrow> (case preferences p of None \<Rightarrow> [] | Some ps \<Rightarrow> ps))"

subsection \<open>Every operation that writes the state\<close>

text \<open>
  The state has three writers: the two entry points of \<^verbatim>\<open>server.ts\<close> and the preference
  upsert. An operation is one of them; a history is a list of operations, run in order.
\<close>

datatype operation =
    Event event
  | Upsert "(string \<times> json) list" "string option"

fun applyOperation :: "runtime \<Rightarrow> operation \<Rightarrow> World \<Rightarrow> error + World" where
  "applyOperation rt (Event ev) w = step rt ev w"
| "applyOperation rt (Upsert delta notes) w = Inr (upsert delta notes w)"

fun runOperations :: "runtime \<Rightarrow> operation list \<Rightarrow> World \<Rightarrow> error + World" where
  "runOperations rt [] w = Inr w"
| "runOperations rt (op # ops) w =
     (case applyOperation rt op w of Inl err \<Rightarrow> Inl err | Inr w' \<Rightarrow> runOperations rt ops w')"

subsection \<open>A concrete conversation\<close>

text \<open>
  The request of the spec's scenario, its fingerprint, a runtime that knows the JSON texts of
  the two payloads of that fingerprint, and generators that always fail or always answer.
\<close>

definition sampleText :: string where
  "sampleText = ''Create me a 3 day trip in Tokyo''"

definition sampleId :: string where
  "sampleId = ''itn-6f1a32b2''"

definition sampleDescription :: string where
  \<open>sampleDescription = ''{"kind":"altItinerary","itineraryId":"itn-6f1a32b2"}''\<close>

definition sampleRetryDescription :: string where
  \<open>sampleRetryDescription = ''{"kind":"altItinerary","itineraryId":"itn-6f1a32b2","retry":1}''\<close>

definition sampleRuntime :: runtime where
  "sampleRuntime =
     \<lparr>parse = (\<lambda>d. if d = sampleDescription then Some (altPayload sampleId)
                    else if d = sampleRetryDescription then Some (retryPayload sampleId (JNum 1))
                    else if d = ''null'' then Some JNull
                    else if d = ''{}'' then Some (JObj [])
                    else None),
      stringify = (\<lambda>v. if v = altPayload sampleId then sampleDescription
                        else if v = retryPayload sampleId (JNum 1) then sampleRetryDescription
                        else ''{}''),
      toStringOf = (\<lambda>v. ''[object Object]''),
      stringLeOne = (\<lambda>s. False)\<rparr>"

definition sampleEnv :: env where
  "sampleEnv = \<lparr>isoNow = ''2025-01-01T00:00:00.000Z'', freshId = ''m1''\<rparr>"

definition freshWorld :: World where
  "freshWorld = \<lparr>state = None, messages = [], schedules = [], trace = []\<rparr>"

definition failingGen :: generator where
  "failingGen sys prompt = GenThrows"

definition answeringGen :: generator where
  "answeringGen sys prompt = GenText (Some ''Day 1: Ueno and Yanaka on foot'')"

definition alwaysFailing :: "nat \<Rightarrow> generator" where
  "alwaysFailing i = failingGen"

text \<open>
  The world after the primary answer to the sample request; after two failed attempts at the
  alternative; and after the alternative was posted.
\<close>

definition scheduledWorld :: World where
  "scheduledWorld = wrappedOnFinish sampleRuntime sampleEnv sampleText (Some ''Day 1: Asakusa'') freshWorld"

definition sampleBase :: Itinerary where
  "sampleBase = \<lparr>itin_id = sampleId, itin_text = ''Day 1: Asakusa'',
                  itin_createdAt = ''2025-01-01T00:00:00.000Z''\<rparr>"

definition scheduledState :: AgentState where
  "scheduledState =
     \<lparr>profile = None, itineraryCounter = None, altOfferedFor = Some [sampleId \<mapsto> False],
      lastItinerary = Some sampleBase\<rparr>"

definition samplePrompt :: string where
  "samplePrompt = altPrompt sampleRuntime scheduledState sampleBase"

definition exhaustedWorld :: World where
  "exhaustedWorld =
     \<lparr>state = Some scheduledState, messages = [], schedules = [],
      trace = [SetState scheduledState, Schedule 15 ''executeTask'' sampleDescription,
               GenerateText altSystem samplePrompt,
               Schedule 10 ''executeTask'' sampleRetryDescription,
               GenerateText altSystem samplePrompt]\<rparr>"

definition offeredState :: AgentState where
  "offeredState =
     \<lparr>profile = None, itineraryCounter = None, altOfferedFor = Some [sampleId \<mapsto> True],
      lastItinerary = Some sampleBase\<rparr>"

definition sampleAlternative :: Message where
  "sampleAlternative = altMessage sampleEnv sampleId ''Day 1: Ueno and Yanaka on foot''"

definition postedWorld :: World where
  "postedWorld =
     \<lparr>state = Some offeredState, messages = [sampleAlternative],
      schedules = [(15, ''executeTask'', sampleDescription)],
      trace = [SetState scheduledState, Schedule 15 ''executeTask'' sampleDescription,
               GenerateText altSystem samplePrompt, SetState offeredState,
               SaveMessages [sampleAlternative]]\<rparr>"

text \<open>Stored preferences and a delta for the preference store.\<close>

definition samplePreferences :: "(string \<times> json) list" where
  "samplePreferences = [(''a'', JNum 1), (''b'', JNum 2), (''diet'', JObj [(''avoid'', JStr ''cafes'')])]"

definition sampleDelta :: "(string \<times> json) list" where
  "sampleDelta = [(''b'', JNum 3), (''c'', JNum 4), (''diet'', JObj [(''likes'', JStr ''ramen'')])]"

definition preferencesWorld :: World where
  "preferencesWorld =
     \<lparr>state = Some (emptyState\<lparr>profile := Some \<lparr>preferences = Some samplePreferences,
                                                 profile_notes = None\<rparr>\<rparr>),
      messages = [], schedules = [], trace = []\<rparr>"

section \<open>Basic facts\<close>

lemma empty_text_rejected: "\<not> looksLikeItineraryRequest []"
  by (simp add: looksLikeItineraryRequest_def toLowerCase_def test_def rxDays_def rxWeek_def
      rxItinerary_def rxTrip_def boundaryAt_def wordAt_def litAt_def run_def)

lemma accepted_nonempty: "looksLikeItineraryRequest t \<Longrightarrow> t \<noteq> []"
  using empty_text_rejected by auto

lemma fingerprint_not_inherited: "itineraryIdFrom t \<notin> set objectPrototypeKeys"
  by (simp add: itineraryIdFrom_def objectPrototypeKeys_def)

lemma truthyAt_fingerprint: "truthyAt m (itineraryIdFrom t) = (m (itineraryIdFrom t) = Some True)"
  using fingerprint_not_inherited [of t] by (auto simp: truthyAt_def split: option.splits)

lemma marker_True_guard: "marker w F = Some True \<Longrightarrow> offeredGuard w F"
  by (auto simp: marker_def offeredGuard_def truthyAt_def split: option.splits)

subsection \<open>The scheduling path\<close>

lemma wrappedOnFinish_rejected:
  "\<not> looksLikeItineraryRequest T \<Longrightarrow> wrappedOnFinish rt e T out w = w"
  by (simp add: wrappedOnFinish_def)

lemma wrappedOnFinish_offered:
  "marker w (itineraryIdFrom T) = Some True \<Longrightarrow> wrappedOnFinish rt e T out w = w"
  by (auto simp: wrappedOnFinish_def Let_def marker_def truthyAt_fingerprint split: option.splits)

lemma wrappedOnFinish_pending:
  assumes "looksLikeItineraryRequest T" and "marker w (itineraryIdFrom T) \<noteq> Some True"
  shows "wrappedOnFinish rt e T out w =
           schedule 15 ''executeTask'' (stringify rt (altPayload (itineraryIdFrom T)))
             (setState ((stateOrEmpty w)\<lparr>
                 lastItinerary := Some \<lparr>itin_id = itineraryIdFrom T,
                                         itin_text = (case out of None \<Rightarrow> [] | Some t \<Rightarrow> t),
                                         itin_createdAt = isoNow e\<rparr>,
                 altOfferedFor := Some ((case altOfferedFor (stateOrEmpty w) of None \<Rightarrow> Map.empty | Some m \<Rightarrow> m)
                                         (itineraryIdFrom T \<mapsto> False))\<rparr>) w)"
  using assms accepted_nonempty [of T]
  by (auto simp: wrappedOnFinish_def Let_def marker_def truthyAt_fingerprint split: option.splits)

lemma marker_schedule [simp]: "marker (schedule d c p w) F = marker w F"
  by (simp add: marker_def stateOrEmpty_def schedule_def)

lemma marker_saveMessages [simp]: "marker (saveMessages ms w) F = marker w F"
  by (simp add: marker_def stateOrEmpty_def saveMessages_def)

lemma marker_setState' [simp]:
  "marker (setState s w) F = (case altOfferedFor s of None \<Rightarrow> None | Some m \<Rightarrow> m F)"
  by (simp add: marker_def stateOrEmpty_def setState_def)

lemma marker_generateText [simp]: "marker (snd (generateText gen sys p w)) F = marker w F"
  by (simp add: marker_def stateOrEmpty_def generateText_def)

lemma rank_le_cases: "rank a \<le> rank b \<longleftrightarrow> (a = None \<or> b = Some True \<or> (a = Some False \<and> b = Some False))"
  by (cases a rule: rank.cases; cases b rule: rank.cases) auto

lemma wrappedOnFinish_pending_marker:
  assumes "looksLikeItineraryRequest T" and "marker w (itineraryIdFrom T) \<noteq> Some True"
  shows "marker (wrappedOnFinish rt e T out w) F =
           (if F = itineraryIdFrom T then Some False else marker w F)"
  unfolding wrappedOnFinish_pending [OF assms]
  by (simp add: marker_def [of w] split: option.splits)

lemma wrappedOnFinish_marker:
  "rank (marker w F) \<le> rank (marker (wrappedOnFinish rt e T out w) F)"
proof (cases "looksLikeItineraryRequest T \<and> marker w (itineraryIdFrom T) \<noteq> Some True")
  case True
  then show ?thesis
    by (cases "marker w (itineraryIdFrom T)" rule: rank.cases)
       (auto simp: wrappedOnFinish_pending_marker rank_le_cases)
next
  case False
  then show ?thesis
    using wrappedOnFinish_rejected wrappedOnFinish_offered by (metis order_refl)
qed

subsection \<open>The scheduled callback\<close>

lemma executeTask_invokes:
  assumes "invokes rt d F"
  shows "executeTask rt gen e d w = Inr (altItinerary rt gen e F (retryField rt d) w)"
  using assms
  by (auto simp: invokes_def executeTask_def retryField_def split: option.splits json.splits)

lemma altItinerary_guarded:
  "offeredGuard w F \<Longrightarrow> altItinerary rt gen e F r w = w"
  by (simp add: altItinerary_def offeredGuard_def Let_def)

lemma altItinerary_no_base:
  "baseId w \<noteq> Some F \<Longrightarrow> altItinerary rt gen e F r w = w"
  by (auto simp: altItinerary_def baseId_def Let_def split: option.splits)

lemma altItinerary_success:
  assumes "\<not> offeredGuard w F" "lastItinerary (stateOrEmpty w) = Some base" "itin_id base = F"
    and "finalAltOf (gen altSystem (altPrompt rt (stateOrEmpty w) base)) = Some alt"
  shows "altItinerary rt gen e F r w =
     w\<lparr>state := Some ((stateOrEmpty w)\<lparr>altOfferedFor :=
            Some ((case altOfferedFor (stateOrEmpty w) of None \<Rightarrow> Map.empty | Some m \<Rightarrow> m)(F \<mapsto> True))\<rparr>),
       messages := messages w @ [altMessage e F alt],
       trace := trace w @ [GenerateText altSystem (altPrompt rt (stateOrEmpty w) base),
                 SetState ((stateOrEmpty w)\<lparr>altOfferedFor :=
            Some ((case altOfferedFor (stateOrEmpty w) of None \<Rightarrow> Map.empty | Some m \<Rightarrow> m)(F \<mapsto> True))\<rparr>),
                 SaveMessages (messages w @ [altMessage e F alt])]\<rparr>"
  using assms
  by (simp add: altItinerary_def offeredGuard_def Let_def generateText_def setState_def saveMessages_def)

lemma altItinerary_failure:
  assumes "\<not> offeredGuard w F" "lastItinerary (stateOrEmpty w) = Some base" "itin_id base = F"
    and "finalAltOf (gen altSystem (altPrompt rt (stateOrEmpty w) base)) = None"
  shows "altItinerary rt gen e F r w =
     (if atMostOne rt (nextRetry rt r)
      then w\<lparr>schedules := schedules w @ [(10, ''executeTask'', stringify rt (retryPayload F (nextRetry rt r)))],
             trace := trace w @ [GenerateText altSystem (altPrompt rt (stateOrEmpty w) base),
                       Schedule 10 ''executeTask'' (stringify rt (retryPayload F (nextRetry rt r)))]\<rparr>
      else w\<lparr>trace := trace w @ [GenerateText altSystem (altPrompt rt (stateOrEmpty w) base)]\<rparr>)"
  using assms
  by (simp add: altItinerary_def offeredGuard_def Let_def generateText_def schedule_def)

lemma altItinerary_cases:
  obtains (noop) "altItinerary rt gen e F r w = w"
  | (success) base alt where "\<not> offeredGuard w F" "lastItinerary (stateOrEmpty w) = Some base" "itin_id base = F"
      "finalAltOf (gen altSystem (altPrompt rt (stateOrEmpty w) base)) = Some alt"
  | (failure) base where "\<not> offeredGuard w F" "lastItinerary (stateOrEmpty w) = Some base" "itin_id base = F"
      "finalAltOf (gen altSystem (altPrompt rt (stateOrEmpty w) base)) = None"
proof (cases "offeredGuard w F \<or> baseId w \<noteq> Some F")
  case True
  then show ?thesis using noop altItinerary_guarded altItinerary_no_base by blast
next
  case False
  then obtain base where b: "lastItinerary (stateOrEmpty w) = Some base" "itin_id base = F"
    by (auto simp: baseId_def)
  show ?thesis
  proof (cases "finalAltOf (gen altSystem (altPrompt rt (stateOrEmpty w) base))")
    case None
    with False b show ?thesis using failure by blast
  next
    case (Some alt)
    with False b show ?thesis using success by blast
  qed
qed

lemma altItinerary_marker:
  "rank (marker w F) \<le> rank (marker (altItinerary rt gen e F' r w) F)"
proof (cases rule: altItinerary_cases [of rt gen e F' r w])
  case noop
  then show ?thesis by simp
next
  case (success base alt)
  then show ?thesis
    by (auto simp: altItinerary_success [where base = base and alt = alt] marker_def
        stateOrEmpty_def rank_le_cases split: option.splits)
next
  case (failure base)
  then show ?thesis
    by (auto simp: altItinerary_failure [where base = base] marker_def stateOrEmpty_def)
qed

lemma executeTask_marker:
  assumes "executeTask rt gen e d w = Inr w'"
  shows "rank (marker w F) \<le> rank (marker w' F)"
  using assms altItinerary_marker [of w F rt gen e _ _]
  by (auto simp: executeTask_def Let_def split: if_splits option.splits json.splits)

lemma step_marker:
  "step rt ev w = Inr w' \<Longrightarrow> rank (marker w F) \<le> rank (marker w' F)"
  by (cases ev) (auto simp: wrappedOnFinish_marker executeTask_marker)

lemma runEvents_marker:
  "runEvents rt evs w = Inr w' \<Longrightarrow> rank (marker w F) \<le> rank (marker w' F)"
proof (induction evs arbitrary: w)
  case Nil
  then show ?case by simp
next
  case (Cons ev evs)
  then obtain w1 where s: "step rt ev w = Inr w1" and r: "runEvents rt evs w1 = Inr w'"
    by (auto split: sum.splits)
  from step_marker [OF s] Cons.IH [OF r] show ?case
    using le_trans by blast
qed

lemma rank_top: "rank (Some True) \<le> rank m \<Longrightarrow> m = Some True"
  by (cases m rule: rank.cases) auto




subsection \<open>Every stored base has a marker\<close>

lemma consistent_wrappedOnFinish:
  "consistent w \<Longrightarrow> consistent (wrappedOnFinish rt e T out w)"
proof (cases "looksLikeItineraryRequest T \<and> marker w (itineraryIdFrom T) \<noteq> Some True")
  case True
  then show ?thesis
    by (simp add: wrappedOnFinish_pending consistent_def baseId_def marker_def stateOrEmpty_def
        schedule_def setState_def)
next
  case False
  assume "consistent w"
  with False show ?thesis
    using wrappedOnFinish_rejected wrappedOnFinish_offered by metis
qed

lemma consistent_altItinerary:
  assumes "consistent w"
  shows "consistent (altItinerary rt gen e F r w)"
proof (cases rule: altItinerary_cases [of rt gen e F r w])
  case noop
  with assms show ?thesis by simp
next
  case (success base alt)
  with assms show ?thesis
    by (auto simp: altItinerary_success [where base = base and alt = alt] consistent_def
        baseId_def marker_def stateOrEmpty_def split: option.splits)
next
  case (failure base)
  with assms show ?thesis
    by (auto simp: altItinerary_failure [where base = base] consistent_def
        baseId_def marker_def stateOrEmpty_def split: option.splits)
qed

lemma consistent_executeTask:
  assumes "consistent w" "executeTask rt gen e d w = Inr w'"
  shows "consistent w'"
proof -
  have "consistent (saveMessages ms w)" for ms
    using assms(1)
    by (simp add: consistent_def baseId_def marker_def stateOrEmpty_def saveMessages_def
        split: option.splits)
  with assms consistent_altItinerary [OF assms(1)] show ?thesis
    by (auto simp: executeTask_def Let_def split: if_splits option.splits json.splits)
qed

lemma consistent_runEvents:
  "consistent w \<Longrightarrow> runEvents rt evs w = Inr w' \<Longrightarrow> consistent w'"
proof (induction evs arbitrary: w)
  case Nil
  then show ?case by simp
next
  case (Cons ev evs)
  then obtain w1 where s: "step rt ev w = Inr w1" and r: "runEvents rt evs w1 = Inr w'"
    by (auto split: sum.splits)
  from s Cons.prems(1) have "consistent w1"
    by (cases ev) (auto simp: consistent_wrappedOnFinish consistent_executeTask)
  from Cons.IH [OF this r] show ?case .
qed

lemma consistent_upsert: "consistent w \<Longrightarrow> consistent (upsert delta notes w)"
  by (simp add: consistent_def baseId_def marker_def upsert_def Let_def setState_def stateOrEmpty_def
      split: option.splits)

lemma null_payload_raises:
  "parse rt d = Some JNull \<Longrightarrow> executeTask rt gen e d w = Inl TypeError"
  by (simp add: executeTask_def)

lemma consistent_fresh: "consistent freshWorld"
  by (simp add: consistent_def baseId_def freshWorld_def stateOrEmpty_def emptyState_def)





subsection \<open>Deliveries after the alternative was offered\<close>

lemma runEvents_skips_deliveries:
  assumes "marker w F = Some True"
  shows "runEvents rt evs w = runEvents rt (filter (\<lambda>ev. \<not> deliveryFor rt F ev) evs) w"
  using assms
proof (induction evs arbitrary: w)
  case Nil
  then show ?case by simp
next
  case (Cons ev evs)
  show ?case
  proof (cases "deliveryFor rt F ev")
    case True
    then obtain gen e d where ev: "ev = Deliver gen e d" and inv: "invokes rt d F"
      by (cases ev) auto
    have "step rt ev w = Inr w"
      by (simp add: ev executeTask_invokes [OF inv] altItinerary_guarded
          marker_True_guard [OF Cons.prems])
    with True Cons show ?thesis by simp
  next
    case False
    show ?thesis
    proof (cases "step rt ev w")
      case (Inl err)
      with False show ?thesis by simp
    next
      case (Inr w')
      from step_marker [OF Inr, of F] Cons.prems have "marker w' F = Some True"
        by (simp add: rank_top)
      from Cons.IH [OF this] False Inr show ?thesis by simp
    qed
  qed
qed

subsection \<open>Two failed attempts\<close>

lemma retryField_altPayload:
  "parse rt d = Some (altPayload F) \<Longrightarrow> retryField rt d = None"
  by (simp add: retryField_def altPayload_def)

lemma retryField_retryPayload:
  "parse rt d = Some (retryPayload F r) \<Longrightarrow> retryField rt d = Some r"
  by (simp add: retryField_def retryPayload_def)

lemma invokes_altPayload:
  "parse rt d = Some (altPayload F) \<Longrightarrow> F \<noteq> [] \<Longrightarrow> invokes rt d F"
  by (simp add: invokes_def altPayload_def)

lemma invokes_retryPayload:
  "parse rt d = Some (retryPayload F r) \<Longrightarrow> F \<noteq> [] \<Longrightarrow> invokes rt d F"
  by (simp add: invokes_def retryPayload_def)

lemma two_failed_attempts:
  assumes rt1: "parse rt (stringify rt (altPayload F)) = Some (altPayload F)"
    and rt2: "parse rt (stringify rt (retryPayload F (JNum 1))) = Some (retryPayload F (JNum 1))"
    and F: "F \<noteq> []"
    and pending: "schedules w = [(15, ''executeTask'', stringify rt (altPayload F))]"
    and guard: "\<not> offeredGuard w F"
    and base: "lastItinerary (stateOrEmpty w) = Some base" "itin_id base = F"
    and fails: "\<And>i. finalAltOf (gens i altSystem (altPrompt rt (stateOrEmpty w) base)) = None"
    and fuel: "2 \<le> fuel"
  shows "runScheduler rt gens e 0 fuel w =
           Inr (w\<lparr>schedules := [],
                  trace := trace w @
                    [GenerateText altSystem (altPrompt rt (stateOrEmpty w) base),
                     Schedule 10 ''executeTask'' (stringify rt (retryPayload F (JNum 1))),
                     GenerateText altSystem (altPrompt rt (stateOrEmpty w) base)]\<rparr>)"
proof -
  let ?p = "altPrompt rt (stateOrEmpty w) base"
  let ?d0 = "stringify rt (altPayload F)"
  let ?d1 = "stringify rt (retryPayload F (JNum 1))"
  let ?w0 = "w\<lparr>schedules := []\<rparr>"
  let ?w1 = "w\<lparr>schedules := [(10, ''executeTask'', ?d1)],
                trace := trace w @ [GenerateText altSystem ?p, Schedule 10 ''executeTask'' ?d1]\<rparr>"
  let ?w1' = "?w1\<lparr>schedules := []\<rparr>"
  let ?w2 = "w\<lparr>schedules := [],
                trace := trace w @ [GenerateText altSystem ?p, Schedule 10 ''executeTask'' ?d1,
                                     GenerateText altSystem ?p]\<rparr>"
  have s0: "stateOrEmpty ?w0 = stateOrEmpty w" "stateOrEmpty ?w1' = stateOrEmpty w"
    by (simp_all add: stateOrEmpty_def)
  have g0: "\<not> offeredGuard ?w0 F" "\<not> offeredGuard ?w1' F"
    using guard by (simp_all add: offeredGuard_def stateOrEmpty_def)
  have a1: "altItinerary rt (gens 0) e F None ?w0 = ?w1"
    by (subst altItinerary_failure [where base = base])
       (simp_all only: g0 s0 base fails, simp_all)
  have a2: "altItinerary rt (gens (Suc 0)) e F (Some (JNum 1)) ?w1' = ?w2"
    by (subst altItinerary_failure [where base = base])
       (simp_all only: g0 s0 base fails, simp_all)
  have first: "executeTask rt (gens 0) e ?d0 ?w0 = Inr ?w1"
    unfolding executeTask_invokes [OF invokes_altPayload [OF rt1 F]] retryField_altPayload [OF rt1] a1 ..
  have second: "executeTask rt (gens (Suc 0)) e ?d1 ?w1' = Inr ?w2"
    unfolding executeTask_invokes [OF invokes_retryPayload [OF rt2 F]]
      retryField_retryPayload [OF rt2] a2 ..
  from fuel obtain k where k: "fuel = Suc (Suc k)"
    by (metis Suc_le_D numeral_2_eq_2 Suc_le_mono)
  have p1: "schedules ?w1 = [(10, ''executeTask'', ?d1)]" and p2: "schedules ?w2 = []"
    by simp_all
  have step1: "runScheduler rt gens e 0 (Suc (Suc k)) w = runScheduler rt gens e (Suc 0) (Suc k) ?w1"
    unfolding runScheduler.simps pending list.case prod.case first sum.case ..
  have step2: "runScheduler rt gens e (Suc 0) (Suc k) ?w1 = runScheduler rt gens e (Suc (Suc 0)) k ?w2"
    unfolding runScheduler.simps(2) [of rt gens e "Suc 0" k ?w1] p1 list.case prod.case second sum.case ..
  have step3: "runScheduler rt gens e (Suc (Suc 0)) k ?w2 = Inr ?w2"
    by (cases k) (simp_all only: runScheduler.simps p2 list.case)
  show ?thesis
    unfolding k step1 step2 step3 ..
qed







subsection \<open>The concrete conversation, evaluated\<close>

lemma sample_hash: "foldl hashStep 0 sampleText = 0x6f1a32b2"
  by (simp add: sampleText_def hashStep_def code_def)

lemma sample_hex: "toString16 0x6f1a32b2 = ''6f1a32b2''"
  by (simp add: toString16_def hexDigits.simps hexDigit_def)

lemma sample_fingerprint: "itineraryIdFrom sampleText = sampleId"
  unfolding itineraryIdFrom_def sample_hash sampleId_def using sample_hex by simp

lemma sample_accepted: "looksLikeItineraryRequest sampleText"
  by code_simp

lemma sample_stringify:
  "stringify sampleRuntime (altPayload sampleId) = sampleDescription"
  "stringify sampleRuntime (retryPayload sampleId (JNum 1)) = sampleRetryDescription"
  by (simp_all add: sampleRuntime_def altPayload_def retryPayload_def)

lemma sample_parse:
  "parse sampleRuntime sampleDescription = Some (altPayload sampleId)"
  "parse sampleRuntime sampleRetryDescription = Some (retryPayload sampleId (JNum 1))"
  by (simp_all add: sampleRuntime_def sampleDescription_def sampleRetryDescription_def)

lemma sampleId_nonempty: "sampleId \<noteq> []"
  by (simp add: sampleId_def)

lemma sample_invokes:
  "invokes sampleRuntime sampleDescription sampleId"
  "invokes sampleRuntime sampleRetryDescription sampleId"
  using sample_parse sampleId_nonempty invokes_altPayload invokes_retryPayload by blast+

lemma marker_fresh: "marker freshWorld F = None"
  by (simp add: marker_def freshWorld_def stateOrEmpty_def emptyState_def)

lemma scheduledWorld_eq:
  "scheduledWorld =
     \<lparr>state = Some scheduledState, messages = [],
      schedules = [(15, ''executeTask'', sampleDescription)],
      trace = [SetState scheduledState, Schedule 15 ''executeTask'' sampleDescription]\<rparr>"
proof -
  have "marker freshWorld (itineraryIdFrom sampleText) \<noteq> Some True"
    by (simp add: marker_fresh)
  from wrappedOnFinish_pending [OF sample_accepted this] show ?thesis
    unfolding scheduledWorld_def
    by (simp add: sample_fingerprint sample_stringify schedule_def setState_def freshWorld_def
        stateOrEmpty_def emptyState_def scheduledState_def sampleBase_def sampleEnv_def)
qed

lemma scheduled_facts:
  "stateOrEmpty scheduledWorld = scheduledState"
  "marker scheduledWorld sampleId = Some False"
  "\<not> offeredGuard scheduledWorld sampleId"
  "lastItinerary (stateOrEmpty scheduledWorld) = Some sampleBase"
  "itin_id sampleBase = sampleId"
  "baseId scheduledWorld = Some sampleId"
  by (simp_all add: scheduledWorld_eq stateOrEmpty_def marker_def offeredGuard_def truthyAt_def
      scheduledState_def sampleBase_def baseId_def)

lemma failingGen_fails: "finalAltOf (failingGen sys p) = None"
  by (simp add: failingGen_def)

lemma answeringGen_answers: "finalAltOf (answeringGen sys p) = Some ''Day 1: Ueno and Yanaka on foot''"
  by (simp add: answeringGen_def trim_def isSpace_def code_def)

lemma posted_run:
  "executeTask sampleRuntime answeringGen sampleEnv sampleDescription scheduledWorld = Inr postedWorld"
proof -
  have "altItinerary sampleRuntime answeringGen sampleEnv sampleId None scheduledWorld =
          scheduledWorld\<lparr>state := Some ((stateOrEmpty scheduledWorld)\<lparr>altOfferedFor :=
            Some ((case altOfferedFor (stateOrEmpty scheduledWorld) of None \<Rightarrow> Map.empty | Some m \<Rightarrow> m)
                    (sampleId \<mapsto> True))\<rparr>),
            messages := messages scheduledWorld @ [sampleAlternative],
            trace := trace scheduledWorld @
              [GenerateText altSystem (altPrompt sampleRuntime (stateOrEmpty scheduledWorld) sampleBase),
               SetState ((stateOrEmpty scheduledWorld)\<lparr>altOfferedFor :=
                 Some ((case altOfferedFor (stateOrEmpty scheduledWorld) of None \<Rightarrow> Map.empty | Some m \<Rightarrow> m)
                    (sampleId \<mapsto> True))\<rparr>),
               SaveMessages (messages scheduledWorld @ [sampleAlternative])]\<rparr>"
    unfolding sampleAlternative_def
    using scheduled_facts(3) scheduled_facts(4) scheduled_facts(5) answeringGen_answers
    by (rule altItinerary_success)
  also have "\<dots> = postedWorld"
    unfolding scheduled_facts(1)
    by (simp add: scheduledWorld_eq postedWorld_def offeredState_def scheduledState_def
        samplePrompt_def)
  finally show ?thesis
    by (simp add: executeTask_invokes [OF sample_invokes(1)] retryField_altPayload [OF sample_parse(1)])
qed

subsection \<open>What a scheduling call stores, field by field\<close>

lemma fingerprint_nonempty: "itineraryIdFrom T \<noteq> []"
  by (simp add: itineraryIdFrom_def)


lemma wrappedOnFinish_pending_fields:
  assumes "looksLikeItineraryRequest T" and "marker w (itineraryIdFrom T) \<noteq> Some True"
  shows "lastItinerary (stateOrEmpty (wrappedOnFinish rt e T out w)) =
           Some \<lparr>itin_id = itineraryIdFrom T,
                 itin_text = (case out of None \<Rightarrow> [] | Some t \<Rightarrow> t),
                 itin_createdAt = isoNow e\<rparr>"
    and "schedules (wrappedOnFinish rt e T out w) =
           schedules w @ [(15, ''executeTask'', stringify rt (altPayload (itineraryIdFrom T)))]"
    and "messages (wrappedOnFinish rt e T out w) = messages w"
  unfolding wrappedOnFinish_pending [OF assms]
  by (simp_all add: schedule_def setState_def stateOrEmpty_def)

lemma rescheduled:
  "wrappedOnFinish sampleRuntime sampleEnv sampleText (Some ''Day 1: Asakusa'') scheduledWorld =
     \<lparr>state = Some scheduledState, messages = [],
      schedules = [(15, ''executeTask'', sampleDescription), (15, ''executeTask'', sampleDescription)],
      trace = [SetState scheduledState, Schedule 15 ''executeTask'' sampleDescription,
               SetState scheduledState, Schedule 15 ''executeTask'' sampleDescription]\<rparr>"
proof -
  have "marker scheduledWorld (itineraryIdFrom sampleText) \<noteq> Some True"
    by (simp add: sample_fingerprint scheduled_facts)
  from wrappedOnFinish_pending [OF sample_accepted this] show ?thesis
    unfolding scheduled_facts(1)
    by (simp add: sample_fingerprint sample_stringify schedule_def setState_def scheduledWorld_eq
        scheduledState_def sampleBase_def sampleEnv_def)
qed

lemma exhausted_run:
  "runScheduler sampleRuntime alwaysFailing sampleEnv 0 fuel scheduledWorld = Inr exhaustedWorld"
  if "2 \<le> fuel"
proof -
  have "runScheduler sampleRuntime alwaysFailing sampleEnv 0 fuel scheduledWorld =
           Inr (scheduledWorld\<lparr>schedules := [],
                  trace := trace scheduledWorld @
                    [GenerateText altSystem (altPrompt sampleRuntime (stateOrEmpty scheduledWorld) sampleBase),
                     Schedule 10 ''executeTask'' (stringify sampleRuntime (retryPayload sampleId (JNum 1))),
                     GenerateText altSystem (altPrompt sampleRuntime (stateOrEmpty scheduledWorld) sampleBase)]\<rparr>)"
  proof (rule two_failed_attempts)
    show "parse sampleRuntime (stringify sampleRuntime (altPayload sampleId)) = Some (altPayload sampleId)"
      by (simp add: sample_stringify sample_parse)
    show "parse sampleRuntime (stringify sampleRuntime (retryPayload sampleId (JNum 1)))
            = Some (retryPayload sampleId (JNum 1))"
      by (simp add: sample_stringify sample_parse)
    show "schedules scheduledWorld = [(15, ''executeTask'', stringify sampleRuntime (altPayload sampleId))]"
      by (simp add: scheduledWorld_eq sample_stringify)
    show "finalAltOf (alwaysFailing i altSystem (altPrompt sampleRuntime (stateOrEmpty scheduledWorld) sampleBase)) = None" for i
      by (simp add: alwaysFailing_def failingGen_fails)
  qed (simp_all add: sampleId_nonempty scheduled_facts scheduledState_def that)
  also have "\<dots> = Inr exhaustedWorld"
    unfolding scheduled_facts(1)
    by (simp add: scheduledWorld_eq exhaustedWorld_def sample_stringify samplePrompt_def)
  finally show ?thesis .
qed

lemma exhausted_facts:
  "stateOrEmpty exhaustedWorld = scheduledState"
  "marker exhaustedWorld sampleId = Some False"
  "\<not> offeredGuard exhaustedWorld sampleId"
  "lastItinerary (stateOrEmpty exhaustedWorld) = Some sampleBase"
  by (simp_all add: exhaustedWorld_def stateOrEmpty_def marker_def offeredGuard_def truthyAt_def
      scheduledState_def)

subsection \<open>The fingerprint as a polynomial\<close>

lemma unat_hash:
  "unat (foldl hashStep h t) = foldl (\<lambda>n c. n * 31 + code c) (unat h) t mod 2 ^ 32"
proof (induction t arbitrary: h rule: rev_induct)
  case Nil
  have "unat h < 2 ^ 32" using unsigned_less [of h] by simp
  then show ?case by simp
next
  case (snoc c t)
  have "unat (foldl hashStep h (t @ [c])) = (unat (foldl hashStep h t) * 31 + code c) mod 2 ^ 32"
    by (simp add: hashStep_def unat_word_ariths unat_of_nat mod_simps)
  also have "\<dots> = (foldl (\<lambda>n c. n * 31 + code c) (unat h) t * 31 + code c) mod 2 ^ 32"
    unfolding snoc.IH by (metis mod_add_left_eq mod_mult_left_eq)
  finally show ?case by simp
qed

subsection \<open>Deep merge\<close>

lemma map_of_setProp: "map_of (setProp k v kvs) = (map_of kvs)(k \<mapsto> v)"
  by (induction kvs) (auto simp: fun_upd_twist)

lemma map_of_deepMerge:
  assumes "distinct (map fst delta)"
  shows "map_of (deepMerge existing delta) k =
           (case map_of delta k of
              None \<Rightarrow> map_of existing k
            | Some v \<Rightarrow> Some (case (map_of existing k, v) of
                               (Some (JObj a), JObj b) \<Rightarrow> JObj (deepMerge a b)
                             | _ \<Rightarrow> v))"
  using assms
proof (induction delta arbitrary: existing)
  case Nil
  then show ?case by simp
next
  case (Cons kv delta)
  obtain k' v' where kv: "kv = (k', v')" by (cases kv)
  from Cons.prems have d: "distinct (map fst delta)" and fresh: "k' \<notin> fst ` set delta"
    by (simp_all add: kv)
  from fresh have none: "map_of delta k' = None"
    by (simp add: map_of_eq_None_iff)
  show ?case
  proof (cases "k = k'")
    case True
    with none Cons.IH [OF d] show ?thesis
      by (simp add: kv map_of_setProp)
  next
    case False
    then show ?thesis
      by (simp add: kv Cons.IH [OF d] map_of_setProp cong: option.case_cong)
  qed
qed

lemma storedPreferences_upsert:
  "storedPreferences (upsert delta notes w) = deepMerge (storedPreferences w) delta"
  by (simp add: storedPreferences_def upsert_def Let_def setState_def stateOrEmpty_def
      split: option.splits)

lemma merge_example:
  "deepMerge [(''a'', JNum 1), (''b'', JNum 2)] [(''b'', JNum 3), (''c'', JNum 4)]
     = [(''a'', JNum 1), (''b'', JNum 3), (''c'', JNum 4)]"
  by simp

subsection \<open>Histories of operations\<close>

lemma marker_upsert [simp]: "marker (upsert delta notes w) F = marker w F"
  by (simp add: marker_def upsert_def Let_def setState_def stateOrEmpty_def)

lemma applyOperation_marker:
  "applyOperation rt op w = Inr w' \<Longrightarrow> rank (marker w F) \<le> rank (marker w' F)"
  by (cases op) (auto simp: step_marker)

lemma runOperations_marker:
  "runOperations rt ops w = Inr w' \<Longrightarrow> rank (marker w F) \<le> rank (marker w' F)"
proof (induction ops arbitrary: w)
  case Nil
  then show ?case by simp
next
  case (Cons op ops)
  then obtain w1 where s: "applyOperation rt op w = Inr w1" and r: "runOperations rt ops w1 = Inr w'"
    by (auto split: sum.splits)
  from applyOperation_marker [OF s] Cons.IH [OF r] show ?case
    using le_trans by blast
qed

lemma altItinerary_writes_only_True:
  "marker (altItinerary rt gen e F r w) G = marker w G
   \<or> (G = F \<and> marker (altItinerary rt gen e F r w) G = Some True)"
proof (cases rule: altItinerary_cases [of rt gen e F r w])
  case noop
  then show ?thesis by simp
next
  case (success base alt)
  then show ?thesis
    by (auto simp: altItinerary_success [where base = base and alt = alt] marker_def
        stateOrEmpty_def split: option.splits)
next
  case (failure base)
  then show ?thesis
    by (auto simp: altItinerary_failure [where base = base] marker_def stateOrEmpty_def)
qed

lemma executeTask_writes_only_True:
  assumes "executeTask rt gen e d w = Inr w'"
  shows "marker w' G = marker w G \<or> marker w' G = Some True"
  using assms altItinerary_writes_only_True [of rt gen e _ _ w G]
  by (auto simp: executeTask_def Let_def split: if_splits option.splits json.splits)


subsection \<open>After the retry is used up\<close>



lemma exhausted_retry_run:
  "executeTask sampleRuntime failingGen sampleEnv sampleRetryDescription exhaustedWorld =
     Inr (exhaustedWorld\<lparr>trace := trace exhaustedWorld @ [GenerateText altSystem samplePrompt]\<rparr>)"
proof -
  have "altItinerary sampleRuntime failingGen sampleEnv sampleId (Some (JNum 1)) exhaustedWorld =
          (if atMostOne sampleRuntime (nextRetry sampleRuntime (Some (JNum 1)))
           then exhaustedWorld\<lparr>schedules := schedules exhaustedWorld @
                    [(10, ''executeTask'',
                      stringify sampleRuntime (retryPayload sampleId (nextRetry sampleRuntime (Some (JNum 1)))))],
                  trace := trace exhaustedWorld @
                    [GenerateText altSystem (altPrompt sampleRuntime (stateOrEmpty exhaustedWorld) sampleBase),
                     Schedule 10 ''executeTask''
                       (stringify sampleRuntime (retryPayload sampleId (nextRetry sampleRuntime (Some (JNum 1)))))]\<rparr>
           else exhaustedWorld\<lparr>trace := trace exhaustedWorld @
                    [GenerateText altSystem (altPrompt sampleRuntime (stateOrEmpty exhaustedWorld) sampleBase)]\<rparr>)"
    using exhausted_facts(3) exhausted_facts(4) scheduled_facts(5) failingGen_fails
    by (rule altItinerary_failure)
  also have "\<dots> = exhaustedWorld\<lparr>trace := trace exhaustedWorld @ [GenerateText altSystem samplePrompt]\<rparr>"
    unfolding exhausted_facts(1) by (simp add: samplePrompt_def)
  finally show ?thesis
    by (simp add: executeTask_invokes [OF sample_invokes(2)] retryField_retryPayload [OF sample_parse(2)])
qed

section \<open>The claims\<close>

subsection \<open>Scheduling twice\<close>

text \<open>
  Claim C1. For a text that the classifier accepts, two calls of the scheduling path with
  the same text should leave one record and one enqueued invocation, the second call being a
  no-op because a record exists. The code does not achieve this. Its guard, commented
  ``only once per itineraryId'', tests the truthiness of \<^verbatim>\<open>altOfferedFor[itineraryId]\<close>,
  and the marker that the first call writes is \<open>False\<close>, which the test does not tell from
  an absent one. Evaluated on the sample request, from a conversation with no state: the text
  is accepted, its fingerprint is \<^verbatim>\<open>itn-6f1a32b2\<close>, the first call leaves the marker
  \<open>False\<close>, and the second call changes the world again and leaves two invocations
  pending.
\<close>

theorem second_scheduling_call_enqueues_again:
  "looksLikeItineraryRequest sampleText
   \<and> itineraryIdFrom sampleText = sampleId
   \<and> scheduledWorld = wrappedOnFinish sampleRuntime sampleEnv sampleText (Some ''Day 1: Asakusa'') freshWorld
   \<and> marker scheduledWorld sampleId = Some False
   \<and> wrappedOnFinish sampleRuntime sampleEnv sampleText (Some ''Day 1: Asakusa'') scheduledWorld \<noteq> scheduledWorld
   \<and> schedules (wrappedOnFinish sampleRuntime sampleEnv sampleText (Some ''Day 1: Asakusa'') scheduledWorld)
        = [(15, ''executeTask'', sampleDescription), (15, ''executeTask'', sampleDescription)]"
proof -
  have ne: "wrappedOnFinish sampleRuntime sampleEnv sampleText (Some ''Day 1: Asakusa'') scheduledWorld
              \<noteq> scheduledWorld"
    unfolding rescheduled by (simp add: scheduledWorld_eq)
  have twice: "schedules (wrappedOnFinish sampleRuntime sampleEnv sampleText (Some ''Day 1: Asakusa'') scheduledWorld)
        = [(15, ''executeTask'', sampleDescription), (15, ''executeTask'', sampleDescription)]"
    unfolding rescheduled by simp
  from sample_accepted sample_fingerprint scheduledWorld_def scheduled_facts(2) ne twice
  show ?thesis by blast
qed

subsection \<open>The alternative is posted at most once\<close>

text \<open>
  Claim C2. When a delivery for \<open>F\<close> succeeds, the callback calls the generator, then
  persists the marker \<open>True\<close> for \<open>F\<close>, and only then appends the one follow-up message
  (write before emit). From then on every further delivery for \<open>F\<close> does nothing, however
  many there are and whatever happens in between: any sequence of events runs exactly as it
  does with the deliveries for \<open>F\<close> removed. So exactly one follow-up message is appended
  for \<open>F\<close> in total.
\<close>

theorem alternative_posted_at_most_once:
  assumes "invokes rt d F" and "\<not> offeredGuard w F"
    and "lastItinerary (stateOrEmpty w) = Some base" and "itin_id base = F"
    and "finalAltOf (gen altSystem (altPrompt rt (stateOrEmpty w) base)) = Some alt"
  shows "\<exists>w1 s1. executeTask rt gen e d w = Inr w1
           \<and> state w1 = Some s1 \<and> marker w1 F = Some True
           \<and> messages w1 = messages w @ [altMessage e F alt]
           \<and> schedules w1 = schedules w
           \<and> trace w1 = trace w @ [GenerateText altSystem (altPrompt rt (stateOrEmpty w) base),
                                     SetState s1,
                                     SaveMessages (messages w @ [altMessage e F alt])]
           \<and> (\<forall>evs. runEvents rt evs w1 = runEvents rt (filter (\<lambda>ev. \<not> deliveryFor rt F ev) evs) w1)
           \<and> (\<forall>evs. list_all (deliveryFor rt F) evs \<longrightarrow> runEvents rt evs w1 = Inr w1)"
proof -
  let ?s1 = "(stateOrEmpty w)\<lparr>altOfferedFor :=
            Some ((case altOfferedFor (stateOrEmpty w) of None \<Rightarrow> Map.empty | Some m \<Rightarrow> m)(F \<mapsto> True))\<rparr>"
  let ?w1 = "altItinerary rt gen e F (retryField rt d) w"
  have run: "executeTask rt gen e d w = Inr ?w1"
    by (rule executeTask_invokes [OF assms(1)])
  have eq: "?w1 = w\<lparr>state := Some ?s1, messages := messages w @ [altMessage e F alt],
       trace := trace w @ [GenerateText altSystem (altPrompt rt (stateOrEmpty w) base),
                 SetState ?s1, SaveMessages (messages w @ [altMessage e F alt])]\<rparr>"
    using assms(2-5) by (rule altItinerary_success)
  have m: "marker ?w1 F = Some True"
    unfolding eq by (simp add: marker_def stateOrEmpty_def)
  have skip: "runEvents rt evs ?w1 = runEvents rt (filter (\<lambda>ev. \<not> deliveryFor rt F ev) evs) ?w1" for evs
    by (rule runEvents_skips_deliveries [OF m])
  have all: "runEvents rt evs ?w1 = Inr ?w1" if "list_all (deliveryFor rt F) evs" for evs
  proof -
    from that have "filter (\<lambda>ev. \<not> deliveryFor rt F ev) evs = []"
      by (simp add: list_all_iff filter_empty_conv)
    with skip [of evs] show ?thesis by simp
  qed
  have parts: "state ?w1 = Some ?s1" "messages ?w1 = messages w @ [altMessage e F alt]"
    "schedules ?w1 = schedules w"
    "trace ?w1 = trace w @ [GenerateText altSystem (altPrompt rt (stateOrEmpty w) base),
                 SetState ?s1, SaveMessages (messages w @ [altMessage e F alt])]"
    by (simp_all add: eq)
  from run m parts skip all show ?thesis by blast
qed

theorem alternative_posted_at_most_once_witness:
  "invokes sampleRuntime sampleDescription sampleId
   \<and> \<not> offeredGuard scheduledWorld sampleId
   \<and> lastItinerary (stateOrEmpty scheduledWorld) = Some sampleBase
   \<and> itin_id sampleBase = sampleId
   \<and> finalAltOf (answeringGen altSystem (altPrompt sampleRuntime (stateOrEmpty scheduledWorld) sampleBase))
        = Some ''Day 1: Ueno and Yanaka on foot''
   \<and> executeTask sampleRuntime answeringGen sampleEnv sampleDescription scheduledWorld = Inr postedWorld
   \<and> messages postedWorld = messages scheduledWorld @ [sampleAlternative]
   \<and> runEvents sampleRuntime
        [Deliver answeringGen sampleEnv sampleDescription,
         Deliver answeringGen sampleEnv sampleRetryDescription,
         Deliver failingGen sampleEnv sampleDescription] postedWorld = Inr postedWorld"
proof -
  from alternative_posted_at_most_once
         [where gen = answeringGen and e = sampleEnv,
          OF sample_invokes(1) scheduled_facts(3) scheduled_facts(4) scheduled_facts(5)
             answeringGen_answers]
  obtain w1 where run: "executeTask sampleRuntime answeringGen sampleEnv sampleDescription scheduledWorld = Inr w1"
    and rest: "\<forall>evs. list_all (deliveryFor sampleRuntime sampleId) evs
                 \<longrightarrow> runEvents sampleRuntime evs w1 = Inr w1"
    by blast
  have w1: "w1 = postedWorld"
    using run posted_run by simp
  have "list_all (deliveryFor sampleRuntime sampleId)
          [Deliver answeringGen sampleEnv sampleDescription,
           Deliver answeringGen sampleEnv sampleRetryDescription,
           Deliver failingGen sampleEnv sampleDescription]"
    by (simp add: sample_invokes)
  with rest have "runEvents sampleRuntime
        [Deliver answeringGen sampleEnv sampleDescription,
         Deliver answeringGen sampleEnv sampleRetryDescription,
         Deliver failingGen sampleEnv sampleDescription] w1 = Inr w1"
    by blast
  with run show ?thesis
    unfolding w1
    using sample_invokes(1) scheduled_facts answeringGen_answers
    by (simp add: postedWorld_def scheduledWorld_eq)
qed

subsection \<open>A generator that always fails\<close>




subsection \<open>Payloads that are not alternative-itinerary payloads\<close>

text \<open>
  Claim C4, as amended. The claim says that a malformed payload leaves no trace at all; the
  code runs the default behaviour kept from the starter instead. When \<^verbatim>\<open>JSON.parse\<close> throws,
  or returns a value other than \<^verbatim>\<open>null\<close> that fails the test
  \<^verbatim>\<open>kind === "altItinerary" && itineraryId\<close>, \<^verbatim>\<open>executeTask\<close> does not raise, leaves the
  state and the scheduler alone, never calls the generator, and appends exactly one message
  of role user with the text \<^verbatim>\<open>Running scheduled task: \<close> followed by the payload.
\<close>

theorem malformed_payload_runs_default:
  assumes "parse rt d = None \<or> (\<exists>p. parse rt d = Some p \<and> p \<noteq> JNull \<and> \<not> wellFormedAlt p)"
  shows "executeTask rt gen e d w =
           Inr (w\<lparr>messages := messages w @ [defaultMessage e d],
                  trace := trace w @ [SaveMessages (messages w @ [defaultMessage e d])]\<rparr>)"
  using assms
  by (auto simp: executeTask_def wellFormedAlt_def saveMessages_def)

theorem malformed_payload_runs_default_witness:
  "(parse sampleRuntime ''{}'' = None
      \<or> (\<exists>p. parse sampleRuntime ''{}'' = Some p \<and> p \<noteq> JNull \<and> \<not> wellFormedAlt p))
   \<and> executeTask sampleRuntime answeringGen sampleEnv ''{}'' scheduledWorld =
         Inr (scheduledWorld\<lparr>messages := messages scheduledWorld @ [defaultMessage sampleEnv ''{}''],
                trace := trace scheduledWorld @
                  [SaveMessages (messages scheduledWorld @ [defaultMessage sampleEnv ''{}''])]\<rparr>)"
proof -
  have h: "parse sampleRuntime ''{}'' = None
      \<or> (\<exists>p. parse sampleRuntime ''{}'' = Some p \<and> p \<noteq> JNull \<and> \<not> wellFormedAlt p)"
    by (simp add: sampleRuntime_def sampleDescription_def sampleRetryDescription_def wellFormedAlt_def)
  from h malformed_payload_runs_default [OF h] show ?thesis by blast
qed

text \<open>
  The claim as stated fails: the plain label \<^verbatim>\<open>water the plants\<close> is not JSON, and the
  callback appends a message to a conversation that had none.
\<close>

theorem malformed_payload_counterexample:
  "parse sampleRuntime ''water the plants'' = None
   \<and> messages freshWorld = []
   \<and> executeTask sampleRuntime failingGen sampleEnv ''water the plants'' freshWorld =
       Inr (freshWorld\<lparr>messages := [defaultMessage sampleEnv ''water the plants''],
              trace := [SaveMessages [defaultMessage sampleEnv ''water the plants'']]\<rparr>)
   \<and> executeTask sampleRuntime failingGen sampleEnv ''water the plants'' freshWorld \<noteq> Inr freshWorld"
  by (simp add: sampleRuntime_def sampleDescription_def sampleRetryDescription_def executeTask_def
      saveMessages_def freshWorld_def)

subsection \<open>Markers only move forward\<close>

text \<open>
  Claim C5, as amended. The claim names two terminal statuses, completed and abandoned, and
  says that a terminal record is never processed again; the code has one terminal marker.
  Order the markers of a fingerprint as absent, \<open>False\<close> (scheduled), \<open>True\<close>
  (completed). Along every history of operations (\<^verbatim>\<open>wrappedOnFinish\<close>, \<^verbatim>\<open>executeTask\<close>
  and the preference upsert) the marker of every \<open>F\<close> never moves backward. Once it is
  \<open>True\<close>, \<^verbatim>\<open>wrappedOnFinish\<close> for a text with fingerprint \<open>F\<close> and \<^verbatim>\<open>executeTask\<close>
  for a payload of \<open>F\<close> leave the world unchanged, and no history resets it. There is no
  abandoned status: a call of \<^verbatim>\<open>executeTask\<close> leaves the marker of \<open>F\<close> as it was or
  makes it \<open>True\<close>, so a record whose retry is used up stays scheduled.
\<close>

theorem marker_moves_forward_and_only_true_is_final:
  "(\<forall>ops w'. runOperations rt ops w = Inr w' \<longrightarrow> rank (marker w F) \<le> rank (marker w' F))
   \<and> (marker w F = Some True \<longrightarrow>
         (\<forall>e T out. itineraryIdFrom T = F \<longrightarrow> wrappedOnFinish rt e T out w = w)
       \<and> (\<forall>gen e d. invokes rt d F \<longrightarrow> executeTask rt gen e d w = Inr w)
       \<and> (\<forall>ops w'. runOperations rt ops w = Inr w' \<longrightarrow> marker w' F = Some True))
   \<and> (\<forall>gen e d w'. executeTask rt gen e d w = Inr w' \<longrightarrow>
         marker w' F = marker w F \<or> marker w' F = Some True)"
proof (intro conjI allI impI)
  fix ops w' assume "runOperations rt ops w = Inr w'"
  then show "rank (marker w F) \<le> rank (marker w' F)"
    by (rule runOperations_marker)
next
  fix e T out assume "marker w F = Some True" "itineraryIdFrom T = F"
  then show "wrappedOnFinish rt e T out w = w"
    by (simp add: wrappedOnFinish_offered)
next
  fix gen e d assume "marker w F = Some True" "invokes rt d F"
  then show "executeTask rt gen e d w = Inr w"
    by (simp add: executeTask_invokes altItinerary_guarded marker_True_guard)
next
  fix ops w' assume "marker w F = Some True" "runOperations rt ops w = Inr w'"
  with runOperations_marker [of rt ops w w' F] show "marker w' F = Some True"
    by (simp add: rank_top)
next
  fix gen e d w' assume "executeTask rt gen e d w = Inr w'"
  then show "marker w' F = marker w F \<or> marker w' F = Some True"
    by (rule executeTask_writes_only_True)
qed

theorem marker_moves_forward_and_only_true_is_final_witness:
  "runOperations sampleRuntime
      [Event (Finish sampleEnv sampleText (Some ''Day 1: Asakusa'')), Upsert sampleDelta None] freshWorld
     = Inr (upsert sampleDelta None scheduledWorld)
   \<and> rank (marker freshWorld sampleId) \<le> rank (marker (upsert sampleDelta None scheduledWorld) sampleId)
   \<and> marker postedWorld sampleId = Some True
   \<and> itineraryIdFrom sampleText = sampleId
   \<and> wrappedOnFinish sampleRuntime sampleEnv sampleText (Some ''Day 1: Asakusa'') postedWorld = postedWorld
   \<and> invokes sampleRuntime sampleRetryDescription sampleId
   \<and> executeTask sampleRuntime answeringGen sampleEnv sampleRetryDescription postedWorld = Inr postedWorld
   \<and> runOperations sampleRuntime
        [Upsert sampleDelta (Some ''walks a lot''),
         Event (Finish sampleEnv sampleText (Some ''Day 1: Shibuya''))] postedWorld
        = Inr (upsert sampleDelta (Some ''walks a lot'') postedWorld)
   \<and> marker (upsert sampleDelta (Some ''walks a lot'') postedWorld) sampleId = Some True
   \<and> executeTask sampleRuntime failingGen sampleEnv sampleRetryDescription exhaustedWorld =
        Inr (exhaustedWorld\<lparr>trace := trace exhaustedWorld @ [GenerateText altSystem samplePrompt]\<rparr>)
   \<and> (marker (exhaustedWorld\<lparr>trace := trace exhaustedWorld @ [GenerateText altSystem samplePrompt]\<rparr>) sampleId
         = marker exhaustedWorld sampleId
       \<or> marker (exhaustedWorld\<lparr>trace := trace exhaustedWorld @ [GenerateText altSystem samplePrompt]\<rparr>) sampleId
         = Some True)"
proof -
  have r1: "runOperations sampleRuntime
      [Event (Finish sampleEnv sampleText (Some ''Day 1: Asakusa'')), Upsert sampleDelta None] freshWorld
     = Inr (upsert sampleDelta None scheduledWorld)"
    by (simp add: scheduledWorld_def)
  have m: "marker postedWorld sampleId = Some True"
    by (simp add: postedWorld_def marker_def stateOrEmpty_def offeredState_def)
  have mu: "marker (upsert sampleDelta (Some ''walks a lot'') postedWorld) (itineraryIdFrom sampleText) = Some True"
    using m by (simp add: sample_fingerprint)
  have r2: "runOperations sampleRuntime
        [Upsert sampleDelta (Some ''walks a lot''),
         Event (Finish sampleEnv sampleText (Some ''Day 1: Shibuya''))] postedWorld
        = Inr (upsert sampleDelta (Some ''walks a lot'') postedWorld)"
    by (simp add: wrappedOnFinish_offered [OF mu])
  note main = marker_moves_forward_and_only_true_is_final [of sampleRuntime _ sampleId]
  from main [of freshWorld] r1
  have a: "rank (marker freshWorld sampleId) \<le> rank (marker (upsert sampleDelta None scheduledWorld) sampleId)"
    by blast
  from main [of postedWorld] m sample_fingerprint
  have b: "wrappedOnFinish sampleRuntime sampleEnv sampleText (Some ''Day 1: Asakusa'') postedWorld = postedWorld"
    by blast
  from main [of postedWorld] m sample_invokes(2)
  have c: "executeTask sampleRuntime answeringGen sampleEnv sampleRetryDescription postedWorld = Inr postedWorld"
    by blast
  from main [of postedWorld] m r2
  have d: "marker (upsert sampleDelta (Some ''walks a lot'') postedWorld) sampleId = Some True"
    by blast
  from main [of exhaustedWorld] exhausted_retry_run
  have f: "marker (exhaustedWorld\<lparr>trace := trace exhaustedWorld @ [GenerateText altSystem samplePrompt]\<rparr>) sampleId
         = marker exhaustedWorld sampleId
       \<or> marker (exhaustedWorld\<lparr>trace := trace exhaustedWorld @ [GenerateText altSystem samplePrompt]\<rparr>) sampleId
         = Some True"
    by blast
  from r1 a m sample_fingerprint b sample_invokes(2) c r2 d exhausted_retry_run f show ?thesis by blast
qed

text \<open>
  The claim as stated fails: after the two failed attempts on the sample request nothing is
  pending and the retry is used up, which the claim calls terminal; a further delivery of
  the retry payload is not a no-op, it calls the generator again.
\<close>

theorem exhausted_record_is_processed_again_counterexample:
  "runScheduler sampleRuntime alwaysFailing sampleEnv 0 2 scheduledWorld = Inr exhaustedWorld
   \<and> schedules exhaustedWorld = []
   \<and> invokes sampleRuntime sampleRetryDescription sampleId
   \<and> executeTask sampleRuntime failingGen sampleEnv sampleRetryDescription exhaustedWorld =
        Inr (exhaustedWorld\<lparr>trace := trace exhaustedWorld @ [GenerateText altSystem samplePrompt]\<rparr>)
   \<and> executeTask sampleRuntime failingGen sampleEnv sampleRetryDescription exhaustedWorld \<noteq> Inr exhaustedWorld"
proof -
  have run: "runScheduler sampleRuntime alwaysFailing sampleEnv 0 2 scheduledWorld = Inr exhaustedWorld"
    by (rule exhausted_run) simp
  have empty: "schedules exhaustedWorld = []"
    by (simp add: exhaustedWorld_def)
  have ne: "exhaustedWorld\<lparr>trace := trace exhaustedWorld @ [GenerateText altSystem samplePrompt]\<rparr>
              \<noteq> exhaustedWorld"
    by (simp add: exhaustedWorld_def)
  from run empty sample_invokes(2) exhausted_retry_run ne show ?thesis by simp
qed

subsection \<open>A delivery without a matching base does nothing\<close>

text \<open>
  Claim C6. When \<^verbatim>\<open>executeTask\<close> is invoked with an alternative-itinerary payload for \<open>F\<close>
  and either no marker exists for \<open>F\<close> (in a world where every stored base has a marker,
  which \<^verbatim>\<open>wrappedOnFinish\<close> establishes and both entry points preserve), or
  \<^verbatim>\<open>lastItinerary\<close> is absent, or its id differs from \<open>F\<close>, then the call returns the
  world unchanged: no store write, no generator call, no message, no retry scheduled.
\<close>

theorem executeTask_without_base_is_noop:
  assumes "invokes rt d F"
    and "(consistent w \<and> marker w F = None) \<or> baseId w \<noteq> Some F"
  shows "executeTask rt gen e d w = Inr w"
proof -
  have "baseId w \<noteq> Some F"
    using assms(2) by (auto simp: consistent_def)
  then show ?thesis
    by (simp add: executeTask_invokes [OF assms(1)] altItinerary_no_base)
qed

theorem executeTask_without_base_is_noop_witness:
  "invokes sampleRuntime sampleDescription sampleId
   \<and> consistent freshWorld \<and> marker freshWorld sampleId = None
   \<and> executeTask sampleRuntime answeringGen sampleEnv sampleDescription freshWorld = Inr freshWorld"
  using executeTask_without_base_is_noop
          [of sampleRuntime sampleDescription sampleId freshWorld answeringGen sampleEnv]
        sample_invokes(1) consistent_fresh marker_fresh [of sampleId]
  by simp

subsection \<open>Merging preferences\<close>

text \<open>
  Claim C7. For a delta with distinct keys, \<open>upsert\<close> stores the deep merge of the delta
  into the existing preferences: a key absent from the delta keeps its value, no key is
  deleted, a key whose existing and incoming values are both objects gets their recursive
  merge, every other incoming value replaces the existing one; and \<^verbatim>\<open>{a:1, b:2}\<close> merged
  with \<^verbatim>\<open>{b:3, c:4}\<close> is \<^verbatim>\<open>{a:1, b:3, c:4}\<close>.
\<close>

theorem upsert_deep_merges:
  assumes "distinct (map fst delta)"
    and "existing = storedPreferences w"
    and "merged = storedPreferences (upsert delta notes w)"
  shows "merged = deepMerge existing delta
       \<and> (\<forall>k. k \<notin> fst ` set delta \<longrightarrow> map_of merged k = map_of existing k)
       \<and> dom (map_of existing) \<subseteq> dom (map_of merged)
       \<and> (\<forall>k a b. map_of existing k = Some (JObj a) \<and> map_of delta k = Some (JObj b)
             \<longrightarrow> map_of merged k = Some (JObj (deepMerge a b)))
       \<and> (\<forall>k v. map_of delta k = Some v
                \<and> \<not> (\<exists>a b. map_of existing k = Some (JObj a) \<and> v = JObj b)
             \<longrightarrow> map_of merged k = Some v)
       \<and> deepMerge [(''a'', JNum 1), (''b'', JNum 2)] [(''b'', JNum 3), (''c'', JNum 4)]
            = [(''a'', JNum 1), (''b'', JNum 3), (''c'', JNum 4)]"
proof -
  have m: "merged = deepMerge existing delta"
    by (simp add: assms(2,3) storedPreferences_upsert)
  note look = map_of_deepMerge [OF assms(1), of existing]
  have untouched: "map_of merged k = map_of existing k" if "k \<notin> fst ` set delta" for k
  proof -
    from that have "map_of delta k = None" by (simp add: map_of_eq_None_iff)
    then show ?thesis by (simp add: m look)
  qed
  have kept: "dom (map_of existing) \<subseteq> dom (map_of merged)"
  proof
    fix k assume "k \<in> dom (map_of existing)"
    then show "k \<in> dom (map_of merged)"
      unfolding m by (cases "map_of delta k") (auto simp: look)
  qed
  have both: "map_of merged k = Some (JObj (deepMerge a b))"
    if "map_of existing k = Some (JObj a) \<and> map_of delta k = Some (JObj b)" for k a b
    using that by (simp add: m look)
  have other: "map_of merged k = Some v"
    if "map_of delta k = Some v \<and> \<not> (\<exists>a b. map_of existing k = Some (JObj a) \<and> v = JObj b)" for k v
    using that by (auto simp: m look split: option.splits json.splits)
  from m untouched kept both other merge_example show ?thesis by blast
qed

theorem upsert_deep_merges_witness:
  "distinct (map fst sampleDelta)
   \<and> samplePreferences = storedPreferences preferencesWorld
   \<and> storedPreferences (upsert sampleDelta None preferencesWorld) =
       [(''a'', JNum 1), (''b'', JNum 3),
        (''diet'', JObj [(''avoid'', JStr ''cafes''), (''likes'', JStr ''ramen'')]), (''c'', JNum 4)]
   \<and> ''a'' \<notin> fst ` set sampleDelta
   \<and> map_of (storedPreferences (upsert sampleDelta None preferencesWorld)) ''a'' = map_of samplePreferences ''a''
   \<and> map_of samplePreferences ''diet'' = Some (JObj [(''avoid'', JStr ''cafes'')])
   \<and> map_of sampleDelta ''diet'' = Some (JObj [(''likes'', JStr ''ramen'')])
   \<and> map_of (storedPreferences (upsert sampleDelta None preferencesWorld)) ''diet''
        = Some (JObj (deepMerge [(''avoid'', JStr ''cafes'')] [(''likes'', JStr ''ramen'')]))
   \<and> map_of sampleDelta ''b'' = Some (JNum 3)
   \<and> map_of (storedPreferences (upsert sampleDelta None preferencesWorld)) ''b'' = Some (JNum 3)"
proof -
  have d: "distinct (map fst sampleDelta)"
    by (simp add: sampleDelta_def)
  have p: "samplePreferences = storedPreferences preferencesWorld"
    by (simp add: storedPreferences_def preferencesWorld_def stateOrEmpty_def emptyState_def)
  note main = upsert_deep_merges [OF d p refl, of None]
  have a: "''a'' \<notin> fst ` set sampleDelta"
    by (simp add: sampleDelta_def)
  have e: "map_of samplePreferences ''diet'' = Some (JObj [(''avoid'', JStr ''cafes'')])"
    "map_of sampleDelta ''diet'' = Some (JObj [(''likes'', JStr ''ramen'')])"
    "map_of sampleDelta ''b'' = Some (JNum 3)"
    by (simp_all add: samplePreferences_def sampleDelta_def)
  have nb: "\<not> (\<exists>a b. map_of samplePreferences ''b'' = Some (JObj a) \<and> JNum 3 = JObj b)"
    by simp
  from main have "storedPreferences (upsert sampleDelta None preferencesWorld) =
       deepMerge samplePreferences sampleDelta" by blast
  then have r: "storedPreferences (upsert sampleDelta None preferencesWorld) =
       [(''a'', JNum 1), (''b'', JNum 3),
        (''diet'', JObj [(''avoid'', JStr ''cafes''), (''likes'', JStr ''ramen'')]), (''c'', JNum 4)]"
    by (simp add: samplePreferences_def sampleDelta_def)
  from main a have r1: "map_of (storedPreferences (upsert sampleDelta None preferencesWorld)) ''a''
      = map_of samplePreferences ''a''" by blast
  from main e(1) e(2) have r2: "map_of (storedPreferences (upsert sampleDelta None preferencesWorld)) ''diet''
        = Some (JObj (deepMerge [(''avoid'', JStr ''cafes'')] [(''likes'', JStr ''ramen'')]))" by blast
  from main e(3) nb have r3: "map_of (storedPreferences (upsert sampleDelta None preferencesWorld)) ''b''
      = Some (JNum 3)" by blast
  from d p r a r1 e r2 r3 show ?thesis by blast
qed

subsection \<open>The fingerprint is a function of the text\<close>

text \<open>
  Claim C8. The fingerprint that the scheduling path computes depends on the text alone: in
  any two runs (any runtime, clock, final text and stored state in which the alternative is
  not yet offered) the id stored as \<^verbatim>\<open>lastItinerary.id\<close> and the key that is marked are the
  same string \<open>itineraryIdFrom T\<close>, and that string is \<^verbatim>\<open>itn-\<close> followed by the
  hexadecimal digits of the polynomial hash of the text, from the start value 0, modulo
  \<open>2^32\<close>.
\<close>

theorem fingerprint_depends_on_text_only:
  assumes "looksLikeItineraryRequest T"
    and "marker w1 (itineraryIdFrom T) \<noteq> Some True"
    and "marker w2 (itineraryIdFrom T) \<noteq> Some True"
  shows "baseId (wrappedOnFinish rt1 e1 T out1 w1) = Some (itineraryIdFrom T)
       \<and> baseId (wrappedOnFinish rt2 e2 T out2 w2) = baseId (wrappedOnFinish rt1 e1 T out1 w1)
       \<and> marker (wrappedOnFinish rt1 e1 T out1 w1) (itineraryIdFrom T) = Some False
       \<and> marker (wrappedOnFinish rt2 e2 T out2 w2) (itineraryIdFrom T) = Some False
       \<and> itineraryIdFrom T =
           ''itn-'' @ toString16 (foldl (\<lambda>n c. n * 31 + code c) 0 T mod 2 ^ 32)"
  using wrappedOnFinish_pending_fields(1) [OF assms(1) assms(2)]
    wrappedOnFinish_pending_fields(1) [OF assms(1) assms(3)]
    wrappedOnFinish_pending_marker [OF assms(1) assms(2)]
    wrappedOnFinish_pending_marker [OF assms(1) assms(3)]
  by (simp add: baseId_def itineraryIdFrom_def unat_hash)

theorem fingerprint_depends_on_text_only_witness:
  "looksLikeItineraryRequest sampleText
   \<and> marker freshWorld (itineraryIdFrom sampleText) \<noteq> Some True
   \<and> marker scheduledWorld (itineraryIdFrom sampleText) \<noteq> Some True
   \<and> baseId (wrappedOnFinish sampleRuntime sampleEnv sampleText (Some ''Day 1: Asakusa'') freshWorld)
        = Some sampleId
   \<and> baseId (wrappedOnFinish sampleRuntime \<lparr>isoNow = ''2026-02-03T04:05:06.000Z'', freshId = ''m9''\<rparr>
               sampleText None scheduledWorld)
        = baseId (wrappedOnFinish sampleRuntime sampleEnv sampleText (Some ''Day 1: Asakusa'') freshWorld)"
proof -
  have a: "marker freshWorld (itineraryIdFrom sampleText) \<noteq> Some True"
    by (simp add: marker_fresh)
  have b: "marker scheduledWorld (itineraryIdFrom sampleText) \<noteq> Some True"
    by (simp add: sample_fingerprint scheduled_facts)
  from fingerprint_depends_on_text_only
         [where ?rt1.0 = sampleRuntime and ?e1.0 = sampleEnv and ?out1.0 = "Some ''Day 1: Asakusa''"
            and ?rt2.0 = sampleRuntime
            and ?e2.0 = "\<lparr>isoNow = ''2026-02-03T04:05:06.000Z'', freshId = ''m9''\<rparr>"
            and ?out2.0 = None,
          OF sample_accepted a b]
       sample_accepted a b
  show ?thesis
    by (simp add: sample_fingerprint)
qed

subsection \<open>The scenario of the spec\<close>

text \<open>
  Claim C9. The text \<^verbatim>\<open>Create me a 3 day trip in Tokyo\<close> is accepted by the classifier and
  has the fingerprint \<^verbatim>\<open>itn-6f1a32b2\<close>. In a world without a marker for that fingerprint,
  \<^verbatim>\<open>wrappedOnFinish\<close> marks it \<open>False\<close> (scheduled), stores the primary output as the
  base, and enqueues exactly one invocation of \<^verbatim>\<open>executeTask\<close> with delay 15 whose payload
  is the JSON text of the kind and the fingerprint.
\<close>

theorem tokyo_request_is_scheduled:
  assumes "marker w ''itn-6f1a32b2'' = None"
    and "w' = wrappedOnFinish rt e ''Create me a 3 day trip in Tokyo'' (Some primary) w"
  shows "looksLikeItineraryRequest ''Create me a 3 day trip in Tokyo''
       \<and> itineraryIdFrom ''Create me a 3 day trip in Tokyo'' = ''itn-6f1a32b2''
       \<and> marker w' ''itn-6f1a32b2'' = Some False
       \<and> lastItinerary (stateOrEmpty w') =
            Some \<lparr>itin_id = ''itn-6f1a32b2'', itin_text = primary, itin_createdAt = isoNow e\<rparr>
       \<and> schedules w' = schedules w @
            [(15, ''executeTask'',
              stringify rt (JObj [(''kind'', JStr ''altItinerary''), (''itineraryId'', JStr ''itn-6f1a32b2'')]))]
       \<and> messages w' = messages w"
proof -
  have acc: "looksLikeItineraryRequest ''Create me a 3 day trip in Tokyo''"
    using sample_accepted by (simp add: sampleText_def)
  have fp: "itineraryIdFrom ''Create me a 3 day trip in Tokyo'' = ''itn-6f1a32b2''"
    using sample_fingerprint by (simp add: sampleText_def sampleId_def)
  have n: "marker w (itineraryIdFrom ''Create me a 3 day trip in Tokyo'') \<noteq> Some True"
    by (simp add: fp assms(1))
  from wrappedOnFinish_pending_marker [OF acc n, of rt e "Some primary" "''itn-6f1a32b2''"]
    wrappedOnFinish_pending_fields [OF acc n, of rt e "Some primary"]
  show ?thesis
    using acc fp by (simp add: assms(2) altPayload_def)
qed

theorem tokyo_request_is_scheduled_witness:
  "marker freshWorld ''itn-6f1a32b2'' = None
   \<and> scheduledWorld = wrappedOnFinish sampleRuntime sampleEnv ''Create me a 3 day trip in Tokyo''
                         (Some ''Day 1: Asakusa'') freshWorld
   \<and> looksLikeItineraryRequest ''Create me a 3 day trip in Tokyo''
   \<and> itineraryIdFrom ''Create me a 3 day trip in Tokyo'' = ''itn-6f1a32b2''
   \<and> marker scheduledWorld ''itn-6f1a32b2'' = Some False
   \<and> lastItinerary (stateOrEmpty scheduledWorld) =
        Some \<lparr>itin_id = ''itn-6f1a32b2'', itin_text = ''Day 1: Asakusa'',
              itin_createdAt = ''2025-01-01T00:00:00.000Z''\<rparr>
   \<and> schedules scheduledWorld = [(15, ''executeTask'', sampleDescription)]"
proof -
  have a: "marker freshWorld ''itn-6f1a32b2'' = None"
    by (rule marker_fresh)
  have b: "scheduledWorld = wrappedOnFinish sampleRuntime sampleEnv ''Create me a 3 day trip in Tokyo''
                         (Some ''Day 1: Asakusa'') freshWorld"
    by (simp add: scheduledWorld_def sampleText_def)
  have s: "stringify sampleRuntime (JObj [(''kind'', JStr ''altItinerary''), (''itineraryId'', JStr ''itn-6f1a32b2'')])
            = sampleDescription"
    using sample_stringify(1) by (simp add: altPayload_def sampleId_def)
  from tokyo_request_is_scheduled [OF a b] a b show ?thesis
    by (simp add: s freshWorld_def sampleEnv_def)
qed

subsection \<open>A failed generation writes nothing\<close>

text \<open>
  Claim C10. On the failure path of the alternative-itinerary branch (the generator throws,
  or returns no text, or only white space) the persisted state and the messages stay exactly
  as loaded; the generator is called once, and the only other effect is at most one retry
  scheduled with delay 10.
\<close>

theorem failure_path_leaves_state_untouched:
  assumes "invokes rt d F" and "\<not> offeredGuard w F"
    and "lastItinerary (stateOrEmpty w) = Some base" and "itin_id base = F"
    and "finalAltOf (gen altSystem (altPrompt rt (stateOrEmpty w) base)) = None"
  shows "\<exists>w'. executeTask rt gen e d w = Inr w'
           \<and> state w' = state w \<and> messages w' = messages w
           \<and> schedules w' = schedules w @
                (if atMostOne rt (nextRetry rt (retryField rt d))
                 then [(10, ''executeTask'', stringify rt (retryPayload F (nextRetry rt (retryField rt d))))]
                 else [])
           \<and> trace w' = trace w @ GenerateText altSystem (altPrompt rt (stateOrEmpty w) base) #
                (if atMostOne rt (nextRetry rt (retryField rt d))
                 then [Schedule 10 ''executeTask'' (stringify rt (retryPayload F (nextRetry rt (retryField rt d))))]
                 else [])"
  by (simp add: executeTask_invokes [OF assms(1)]
      altItinerary_failure [OF assms(2) assms(3) assms(4), where gen = gen, OF assms(5)])

theorem failure_path_leaves_state_untouched_witness:
  "invokes sampleRuntime sampleDescription sampleId
   \<and> \<not> offeredGuard scheduledWorld sampleId
   \<and> lastItinerary (stateOrEmpty scheduledWorld) = Some sampleBase
   \<and> itin_id sampleBase = sampleId
   \<and> finalAltOf (failingGen altSystem (altPrompt sampleRuntime (stateOrEmpty scheduledWorld) sampleBase)) = None
   \<and> (\<exists>w'. executeTask sampleRuntime failingGen sampleEnv sampleDescription scheduledWorld = Inr w'
          \<and> state w' = state scheduledWorld \<and> messages w' = messages scheduledWorld
          \<and> schedules w' = schedules scheduledWorld @ [(10, ''executeTask'', sampleRetryDescription)])"
proof -
  have r: "retryField sampleRuntime sampleDescription = None"
    by (rule retryField_altPayload [OF sample_parse(1)])
  from failure_path_leaves_state_untouched
         [where gen = failingGen and e = sampleEnv,
          OF sample_invokes(1) scheduled_facts(3) scheduled_facts(4) scheduled_facts(5)
             failingGen_fails]
  obtain w' where "executeTask sampleRuntime failingGen sampleEnv sampleDescription scheduledWorld = Inr w'"
    "state w' = state scheduledWorld" "messages w' = messages scheduledWorld"
    "schedules w' = schedules scheduledWorld @ [(10, ''executeTask'', sampleRetryDescription)]"
    by (auto simp: r sample_stringify)
  then show ?thesis
    using sample_invokes(1) scheduled_facts failingGen_fails by blast
qed


end
